theory Spec2Isabelle
  imports Main "HOL-Library.AList" "HOL-Library.Sublist"
begin

section \<open>The JSLint language server: a shallow embedding of \<open>extension.ts\<close>\<close>

text \<open>
  The server part of the extension has three classes: \<open>OptionsResolver\<close> (which options
  apply to a file), \<open>FileMatcher\<close> (is a file excluded) and \<open>Linter\<close> (run the engine,
  publish diagnostics). Each source function is a HOL function of the same name.
  The world the code runs in is the record \<open>env\<close>: the file system as a function from
  paths to nodes, and \<open>JSON.parse\<close>, \<open>minimatch\<close>, the text parser of parse-gitignore,
  lodash's \<open>_.mergeWith\<close> and the JSLint engine as functions. Node's \<open>path\<close> module (in
  its POSIX flavour) is written out as its documentation describes it.

  Strings are \<open>string\<close>, so a character is one of 256; JavaScript's strings are
  sequences of 16-bit units. Of the characters that the regular expressions of the source
  treat specially, only U+2028 and U+2029 are out of reach of this model.
  Numbers are \<open>int\<close>: the code under study only compares them with zero and
  subtracts one.
\<close>

subsection \<open>Raw warnings and diagnostics\<close>

text \<open>\<open>interface JSLintError\<close>, as \<open>lintContent\<close> fills it: the code may be undefined.\<close>

record JSLintError =
  code :: "string option"
  err_id :: nat
  line :: int
  character :: int
  reason :: string

datatype DiagnosticSeverity = Error | Warning

record Position =
  pos_line :: int
  pos_character :: int

record Range =
  range_start :: Position
  range_end :: Position

record Diagnostic =
  message :: string
  severity :: DiagnosticSeverity
  source :: string
  diag_code :: "string option"
  diag_range :: Range

text \<open>
  JavaScript's truthiness of an optional string (\<open>problem.code ? ... : ...\<close>,
  \<open>!problem.code\<close>, \<open>if (fsPath)\<close>): undefined, null and the empty string are falsy.
\<close>

fun truthy_string :: "string option \<Rightarrow> bool" where
  "truthy_string None = False"
| "truthy_string (Some s) = (s \<noteq> [])"

text \<open>\<open>getSeverity\<close>: \<open>!problem.code || problem.code[0] === 'E'\<close>.\<close>

fun getSeverity :: "JSLintError \<Rightarrow> DiagnosticSeverity" where
  "getSeverity problem =
     (case code problem of
        None \<Rightarrow> Error
      | Some [] \<Rightarrow> Error
      | Some (c # cs) \<Rightarrow> if c = CHR ''E'' then Error else Warning)"

text \<open>
  \<open>makeDiagnostic\<close> first overwrites a line or character that is not positive by 1, then
  builds the diagnostic from the problem so changed.
\<close>

definition clamp_problem :: "JSLintError \<Rightarrow> JSLintError" where
  "clamp_problem problem =
     (let p1 = (if line problem \<le> 0 then problem\<lparr>line := 1\<rparr> else problem)
      in if character p1 \<le> 0 then p1\<lparr>character := 1\<rparr> else p1)"

definition makeDiagnostic :: "JSLintError \<Rightarrow> Diagnostic" where
  "makeDiagnostic problem0 =
     (let problem = clamp_problem problem0 in
      \<lparr> message = reason problem @
          (case code problem of
             None \<Rightarrow> []
           | Some c \<Rightarrow> if c \<noteq> [] then '' ('' @ c @ '')'' else []),
        severity = getSeverity problem,
        source = ''jsLint'',
        diag_code = code problem,
        diag_range =
          \<lparr> range_start =
              \<lparr> pos_line = line problem - 1, pos_character = character problem - 1 \<rparr>,
            range_end =
              \<lparr> pos_line = line problem - 1, pos_character = character problem - 1 \<rparr> \<rparr> \<rparr>)"

subsection \<open>JSON values\<close>

text \<open>
  What \<open>JSON.parse\<close> returns. A value that may be \<open>undefined\<close> is a \<open>json option\<close>.
  An object is the list of its properties in insertion order; \<open>JSON.parse\<close> never
  returns the same key twice.
\<close>

datatype json =
  JNull | JBool bool | JNum int | JStr string | JArr "json list" | JObj "(string \<times> json) list"

text \<open>JavaScript's truthiness, as in \<open>if (content.extends)\<close> and \<open>if (!result)\<close>.\<close>

fun truthy :: "json option \<Rightarrow> bool" where
  "truthy None = False"
| "truthy (Some JNull) = False"
| "truthy (Some (JBool b)) = b"
| "truthy (Some (JNum n)) = (n \<noteq> 0)"
| "truthy (Some (JStr s)) = (s \<noteq> [])"
| "truthy (Some (JArr xs)) = True"
| "truthy (Some (JObj ps)) = True"

text \<open>
  Reading one of the properties the source reads (\<open>extends\<close>, \<open>jslintConfig\<close>, \<open>config\<close>,
  \<open>globals\<close>) from a value that is not \<open>null\<close>: only an object has them. Reading a
  property of \<open>null\<close> throws, which the callers below write out.
\<close>

fun get_prop :: "json \<Rightarrow> string \<Rightarrow> json option" where
  "get_prop (JObj ps) k = map_of ps k"
| "get_prop v k = None"

datatype error =
  TypeError     \<comment> \<open>a property of \<open>null\<close> or \<open>undefined\<close> is read, or \<open>path.resolve\<close> gets a non-string\<close>
| RangeError    \<comment> \<open>the call stack is exhausted\<close>
| IOError       \<comment> \<open>\<open>fs.readFileSync\<close> on a path that is no readable file\<close>

subsection \<open>The customizer that \<open>readJSLintFile\<close> hands to \<open>_.mergeWith\<close>\<close>

text \<open>
  \<^verbatim>\<open>(baseValue, contentValue) => { if (_.isArray(baseValue)) return baseValue.concat(contentValue); }\<close>
  For a base value that is an array the result is the base array extended by the content
  value: \<open>concat\<close> appends the elements of an array and any other value as one element.
  For any other base value, \<open>undefined\<close> too, the function returns \<open>undefined\<close>, which
  leaves the merge of that property to lodash.
\<close>

definition customizer :: "json option \<Rightarrow> json \<Rightarrow> json option" where
  "customizer baseValue contentValue =
     (case baseValue of
        Some (JArr bs) \<Rightarrow>
          Some (JArr (bs @ (case contentValue of JArr cs \<Rightarrow> cs | v \<Rightarrow> [v])))
      | _ \<Rightarrow> None)"

text \<open>\<open>delete content.extends\<close>\<close>

fun delete_prop :: "string \<Rightarrow> json \<Rightarrow> json" where
  "delete_prop k (JObj ps) = JObj (AList.delete k ps)"
| "delete_prop k v = v"

subsection \<open>Node's \<open>path\<close> module (POSIX)\<close>

fun split_on :: "char \<Rightarrow> string \<Rightarrow> string list" where
  "split_on sep [] = [[]]"
| "split_on sep (c # cs) =
     (if c = sep then [] # split_on sep cs
      else (case split_on sep cs of [] \<Rightarrow> [[c]] | s # ss \<Rightarrow> (c # s) # ss))"

definition split_slash :: "string \<Rightarrow> string list" where
  "split_slash = split_on (CHR ''/'')"

fun join_slash :: "string list \<Rightarrow> string" where
  "join_slash [] = []"
| "join_slash [s] = s"
| "join_slash (s # t # ss) = s @ CHR ''/'' # join_slash (t # ss)"

text \<open>
  \<open>normalizeString\<close>: empty and \<open>.\<close> segments are dropped; \<open>..\<close> removes the segment before
  it, unless there is none or it is \<open>..\<close> itself, in which case \<open>..\<close> is kept when the path
  may climb above its start and dropped otherwise. The result stack is kept reversed.
\<close>

fun normalizeSegments :: "bool \<Rightarrow> string list \<Rightarrow> string list \<Rightarrow> string list" where
  "normalizeSegments allowAboveRoot res [] = rev res"
| "normalizeSegments allowAboveRoot res (s # ss) =
     (if s = [] \<or> s = ''.'' then normalizeSegments allowAboveRoot res ss
      else if s = ''..'' then
        (case res of
           r # rs \<Rightarrow>
             if r \<noteq> ''..'' then normalizeSegments allowAboveRoot rs ss
             else if allowAboveRoot then normalizeSegments allowAboveRoot (''..'' # res) ss
             else normalizeSegments allowAboveRoot res ss
         | [] \<Rightarrow>
             if allowAboveRoot then normalizeSegments allowAboveRoot [''..''] ss
             else normalizeSegments allowAboveRoot [] ss)
      else normalizeSegments allowAboveRoot (s # res) ss)"

definition normalizeString :: "string \<Rightarrow> bool \<Rightarrow> string" where
  "normalizeString path allowAboveRoot =
     join_slash (normalizeSegments allowAboveRoot [] (split_slash path))"

definition isAbsolute :: "string \<Rightarrow> bool" where
  "isAbsolute path = (case path of [] \<Rightarrow> False | c # cs \<Rightarrow> c = CHR ''/'')"

definition normalize :: "string \<Rightarrow> string" where
  "normalize path =
     (if path = [] then ''.''
      else
        let trailingSeparator = (last path = CHR ''/'');
            p = normalizeString path (\<not> isAbsolute path)
        in if p = [] then (if isAbsolute path then ''/'' else if trailingSeparator then ''./'' else ''.'')
           else (if isAbsolute path then ''/'' else []) @ p @ (if trailingSeparator then ''/'' else []))"

text \<open>\<open>path.join(a, b)\<close>: the non-empty arguments joined by \<open>/\<close>, then normalized.\<close>

definition path_join :: "string \<Rightarrow> string \<Rightarrow> string" where
  "path_join a b =
     (let parts = filter (\<lambda>s. s \<noteq> []) [a, b]
      in if parts = [] then ''.'' else normalize (join_slash parts))"

text \<open>
  \<open>path.resolve(a, b)\<close>: the arguments are taken from the right, then the working
  directory, until the path is absolute; empty arguments are skipped.
\<close>

definition path_resolve :: "string \<Rightarrow> string \<Rightarrow> string \<Rightarrow> string" where
  "path_resolve cwd a b =
     (let r1 = (if b = [] then [] else b @ ''/'');
          r2 = (if isAbsolute b \<or> a = [] then r1 else a @ ''/'' @ r1);
          r3 = (if isAbsolute b \<or> isAbsolute a \<or> cwd = [] then r2 else cwd @ ''/'' @ r2);
          resolvedAbsolute = (isAbsolute b \<or> isAbsolute a \<or> isAbsolute cwd);
          p = normalizeString r3 (\<not> resolvedAbsolute)
      in if resolvedAbsolute then CHR ''/'' # p else if p \<noteq> [] then p else ''.'')"

text \<open>
  \<open>path.dirname\<close>: from the end and not looking at the first character, skip the
  trailing slashes, then the last segment; the slash before that segment ends the
  result.
\<close>

definition dirname :: "string \<Rightarrow> string" where
  "dirname path =
     (case path of
        [] \<Rightarrow> ''.''
      | c # t \<Rightarrow>
          (case dropWhile (\<lambda>x. x \<noteq> CHR ''/'') (dropWhile (\<lambda>x. x = CHR ''/'') (rev t)) of
             [] \<Rightarrow> if c = CHR ''/'' then ''/'' else ''.''
           | s # r \<Rightarrow> if c = CHR ''/'' \<and> r = [] then ''//'' else c # rev r))"

subsection \<open>The world outside: file system, parsers, engine\<close>

datatype fsnode = Dir | File string

text \<open>One raw warning of the engine's report (\<open>output.warnings\<close>).\<close>

record RawWarning =
  w_code :: "string option"
  w_line :: int
  w_column :: int
  w_message :: string

text \<open>
  \<open>files\<close> answers for every path string what is there (\<open>fs.existsSync\<close>,
  \<open>fs.readFileSync\<close>). \<open>JSON_parse\<close> is \<open>JSON.parse\<close>, \<open>None\<close> when it throws.
  \<open>home\<close> is the environment variable \<open>HOME\<close> (\<open>USERPROFILE\<close> on Windows), \<open>cwd\<close> is
  \<open>process.cwd()\<close>. \<open>parse_gitignore\<close> turns the text of an ignore file into its
  patterns. \<open>mergeWith\<close> is lodash's \<open>_.mergeWith(object, source, customizer)\<close>: the
  value it returns, given as a JSON value. \<open>JSLINT_data\<close> is the engine: the report
  that \<open>JSLINT.data()\<close> gives after \<open>JSLINT(content, options, globals)\<close>, \<open>None\<close> when
  \<open>data\<close> is missing or throws.
  \<open>uriToFilePath\<close> is \<open>Files.uriToFilePath\<close>. \<open>stack\<close> is the number of nested calls
  of \<open>readJSLintFile\<close> that the call stack has room for.
\<close>

record env =
  files :: "string \<Rightarrow> fsnode option"
  JSON_parse :: "string \<Rightarrow> json option"
  home :: "string option"
  cwd :: string
  minimatch :: "string \<Rightarrow> string \<Rightarrow> bool"
  parse_gitignore :: "string \<Rightarrow> string list"
  mergeWith :: "json \<Rightarrow> json \<Rightarrow> (json option \<Rightarrow> json \<Rightarrow> json option) \<Rightarrow> json"
  JSLINT_data :: "string \<Rightarrow> json \<Rightarrow> json \<Rightarrow> RawWarning list option"
  uriToFilePath :: "string \<Rightarrow> string option"
  stack :: nat

definition existsSync :: "env \<Rightarrow> string \<Rightarrow> bool" where
  "existsSync e p = (files e p \<noteq> None)"

text \<open>
  The connection to the editor: the messages shown (\<open>window.showErrorMessage\<close>) and the
  diagnostics published (\<open>sendDiagnostics\<close>), oldest first.
\<close>

record connection =
  shown :: "string list"
  published :: "(string \<times> Diagnostic list) list"

definition showErrorMessage :: "string \<Rightarrow> connection \<Rightarrow> connection" where
  "showErrorMessage m c = c\<lparr>shown := shown c @ [m]\<rparr>"

definition sendDiagnostics :: "string \<Rightarrow> Diagnostic list \<Rightarrow> connection \<Rightarrow> connection" where
  "sendDiagnostics uri ds c = c\<lparr>published := published c @ [(uri, ds)]\<rparr>"

subsection \<open>\<open>locateFile\<close>\<close>

text \<open>
  The loop below ends because \<open>path.dirname\<close> either returns its argument or a path that
  is lower in this measure.
\<close>

definition path_height :: "string \<Rightarrow> nat" where
  "path_height d = (if d = ''.'' \<or> d = ''/'' then 0 else length d + 2)"

lemma path_height_le: "path_height d \<le> length d + 2"
  by (simp add: path_height_def)

lemma path_height_fixed: "path_height ''.'' = 0" "path_height ''/'' = 0"
  by (simp_all add: path_height_def)

lemma path_height_pos: "d \<noteq> ''.'' \<Longrightarrow> d \<noteq> ''/'' \<Longrightarrow> path_height d = length d + 2"
  by (simp add: path_height_def)

lemma dropWhile_twice_length:
  assumes "dropWhile Q (dropWhile P xs) = s # r" and "\<And>x. \<not> P x \<Longrightarrow> Q x"
  shows "length r + 2 \<le> length xs"
proof (cases "dropWhile P xs")
  case Nil
  with assms(1) show ?thesis by (simp only: dropWhile.simps) simp
next
  case (Cons y ys)
  have "\<not> P y" using hd_dropWhile [of P xs] Cons by (simp only: list.sel) simp
  then have "Q y" by (rule assms(2))
  then have "dropWhile Q (y # ys) = dropWhile Q ys" by (simp only: dropWhile.simps if_True)
  with assms(1) Cons have "dropWhile Q ys = s # r" by (simp only:)
  then have "length (s # r) \<le> length ys"
    using length_dropWhile_le [of Q ys] by (simp only:)
  moreover have "length (y # ys) \<le> length xs"
    using length_dropWhile_le [of P xs] Cons by (simp only:)
  ultimately show ?thesis by simp
qed

lemma dirname_cases:
  "dirname d = ''.'' \<or> dirname d = ''/'' \<or> length (dirname d) < length d"
proof (cases d)
  case Nil
  then show ?thesis by (simp add: dirname_def)
next
  case (Cons c t)
  let ?r1 = "dropWhile (\<lambda>x. x = CHR ''/'') (rev t)"
  let ?r2 = "dropWhile (\<lambda>x. x \<noteq> CHR ''/'') ?r1"
  show ?thesis
  proof (cases ?r2)
    case Nil
    have "dirname d = (if c = CHR ''/'' then ''/'' else ''.'')"
      by (simp only: dirname_def Cons Nil list.case)
    then show ?thesis by (cases "c = CHR ''/''") simp_all
  next
    case r2: (Cons s r)
    have "length r + 2 \<le> length (rev t)"
      by (rule dropWhile_twice_length [OF r2])
    then have len: "length r + 2 \<le> length t" by simp
    have "dirname d = (if c = CHR ''/'' \<and> r = [] then ''//'' else c # rev r)"
      by (simp only: dirname_def Cons r2 list.case)
    then have "length (dirname d) \<le> length r + 2" by simp
    with len Cons show ?thesis by simp
  qed
qed

lemma dirname_shorter: "dirname d \<noteq> d \<Longrightarrow> path_height (dirname d) < path_height d"
proof -
  assume neq: "dirname d \<noteq> d"
  have fix1: "dirname ''.'' = ''.''" and fix2: "dirname ''/'' = ''/''"
    by (simp_all add: dirname_def)
  from neq fix1 fix2 have d: "d \<noteq> ''.''" "d \<noteq> ''/''" by auto
  then have h: "path_height d = length d + 2" by (rule path_height_pos)
  from dirname_cases [of d] show ?thesis
  proof (elim disjE)
    assume "dirname d = ''.''" then show ?thesis using h by (simp add: path_height_fixed)
  next
    assume "dirname d = ''/''" then show ?thesis using h by (simp add: path_height_fixed)
  next
    assume "length (dirname d) < length d"
    then show ?thesis using h path_height_le [of "dirname d"] by simp
  qed
qed

text \<open>
  The \<open>do ... while (parent !== directory)\<close> loop: look for \<open>fileName\<close> in \<open>directory\<close>,
  then in its parent, until \<open>path.dirname\<close> no longer changes the directory.
\<close>

function locateFile :: "env \<Rightarrow> string \<Rightarrow> string \<Rightarrow> string option" where
  "locateFile e directory fileName =
     (let location = path_join directory fileName
      in if existsSync e location then Some location
         else let parent = dirname directory
              in if parent \<noteq> directory then locateFile e parent fileName else None)"
  by pat_completeness auto
termination
proof (relation "measure (\<lambda>(e, d, f). path_height d)")
  show "wf (measure (\<lambda>(e, d, f). path_height d))" by simp
next
  fix e :: env and directory fileName x xa :: string
  assume "xa = dirname directory" "xa \<noteq> directory"
  then show "((e, xa, fileName), (e, directory, fileName)) \<in> measure (\<lambda>(e, d, f). path_height d)"
    using dirname_shorter [of directory] by simp
qed

declare locateFile.simps [simp del]

subsection \<open>\<open>stripComments\<close>\<close>

text \<open>
  The regular expression of the source has four alternatives, each a capturing group:
  \<^verbatim>\<open>("(?:[^\\\"]*(?:\\.)?)*")\<close> a double-quoted string,
  \<^verbatim>\<open>('(?:[^\\\']*(?:\\.)?)*')\<close> a single-quoted string,
  \<^verbatim>\<open>(\/\*(?:\r?\n|.)*?\*\/)\<close> a block comment,
  \<^verbatim>\<open>(\/{2,}.*?(?:(?:\r?\n)|$))\<close> a line comment.
  The dot matches any character but a line terminator. Each alternative is written
  below as the scanner that the backtracking matcher amounts to; a scanner returns the
  text left after the match, or \<open>None\<close> when the alternative does not match here.
\<close>

definition lineTerminator :: "char \<Rightarrow> bool" where
  "lineTerminator c = (c = CHR 0x0A \<or> c = CHR 0x0D)"

text \<open>
  After the opening quote \<open>q\<close>: a character other than the backslash and the quote is
  taken by the class \<^verbatim>\<open>[^\\\"]\<close> (line terminators too); a backslash only by \<^verbatim>\<open>\\.\<close>,
  together with the next character, which must not be a line terminator; the quote ends
  the string. No position has a second way to go on, so backtracking finds nothing else.
\<close>

fun match_string :: "char \<Rightarrow> string \<Rightarrow> string option" where
  "match_string q [] = None"
| "match_string q (c # cs) =
     (if c = q then Some cs
      else if c = CHR 0x5C then
        (case cs of
           [] \<Rightarrow> None
         | d # ds \<Rightarrow> if lineTerminator d then None else match_string q ds)
      else match_string q cs)"

text \<open>
  After \<^verbatim>\<open>/*\<close>: the lazy loop first tries to end at \<^verbatim>\<open>*/\<close>, and otherwise takes one more
  unit, \<^verbatim>\<open>\r?\n\<close> or one character that is no line terminator. A carriage return with no
  line feed behind it is neither.
\<close>

fun match_block :: "string \<Rightarrow> string option" where
  "match_block [] = None"
| "match_block (c # cs) =
     (if c = CHR ''*'' \<and> (case cs of [] \<Rightarrow> False | d # ds \<Rightarrow> d = CHR ''/'') then Some (tl cs)
      else if c = CHR 0x0D then
        (case cs of
           [] \<Rightarrow> None
         | d # ds \<Rightarrow> if d = CHR 0x0A then match_block ds else None)
      else match_block cs)"

text \<open>
  After the first two slashes (further slashes are taken by \<^verbatim>\<open>\/{2,}\<close> or by the dot, with
  the same result): the lazy loop first tries to end, at \<^verbatim>\<open>\r?\n\<close> or at the end of the
  text, and otherwise takes one character that is no line terminator.
\<close>

fun match_line :: "string \<Rightarrow> string option" where
  "match_line [] = Some []"
| "match_line (c # cs) =
     (if c = CHR 0x0A then Some cs
      else if c = CHR 0x0D then
        (case cs of
           [] \<Rightarrow> None
         | d # ds \<Rightarrow> if d = CHR 0x0A then Some ds else None)
      else match_line cs)"

datatype capture = DoubleQuoted | SingleQuoted | BlockComment | LineComment

text \<open>
  One attempt of the regular expression at the start of \<open>s\<close>: which group matched, and
  the text after the match. The alternatives start with different characters, so at
  most one of them can match at a position.
\<close>

definition regexp_exec :: "string \<Rightarrow> (capture \<times> string) option" where
  "regexp_exec s =
     (case s of
        [] \<Rightarrow> None
      | c # cs \<Rightarrow>
          if c = CHR 0x22 then map_option (Pair DoubleQuoted) (match_string (CHR 0x22) cs)
          else if c = CHR 0x27 then map_option (Pair SingleQuoted) (match_string (CHR 0x27) cs)
          else if c = CHR ''/'' then
            (case cs of
               [] \<Rightarrow> None
             | d # ds \<Rightarrow>
                 if d = CHR ''*'' then map_option (Pair BlockComment) (match_block ds)
                 else if d = CHR ''/'' then map_option (Pair LineComment) (match_line ds)
                 else None)
          else None)"

text \<open>The callback of \<open>content.replace\<close>: \<open>m\<close> is the matched text.\<close>

definition replacer :: "capture \<Rightarrow> string \<Rightarrow> string" where
  "replacer g m =
     (case g of
        BlockComment \<Rightarrow> []
      | LineComment \<Rightarrow>
          (let n = length m
           in if n > 2 \<and> m ! (n - 1) = CHR 0x0A
              then (if m ! (n - 2) = CHR 0x0D then [CHR 0x0D, CHR 0x0A] else [CHR 0x0A])
              else [])
      | _ \<Rightarrow> m)"

lemma match_string_shorter: "match_string q s = Some r \<Longrightarrow> length r < length s"
  by (induction q s rule: match_string.induct) (auto split: if_splits list.splits)

lemma match_block_shorter: "match_block s = Some r \<Longrightarrow> length r < length s"
  by (induction s rule: match_block.induct) (auto split: if_splits list.splits)

lemma match_line_shorter: "match_line s = Some r \<Longrightarrow> length r \<le> length s"
  by (induction s rule: match_line.induct) (auto split: if_splits list.splits)

lemma regexp_exec_shorter:
  assumes "regexp_exec s = Some (g, r)"
  shows "length r < length s"
proof (cases s)
  case Nil
  with assms show ?thesis by (simp add: regexp_exec_def)
next
  case (Cons c cs)
  show ?thesis
  proof (cases "c = CHR 0x22")
    case True
    with assms Cons have "match_string (CHR 0x22) cs = Some r"
      by (auto simp: regexp_exec_def)
    from match_string_shorter [OF this] Cons show ?thesis by simp
  next
    case dq: False
    show ?thesis
    proof (cases "c = CHR 0x27")
      case True
      with assms Cons have "match_string (CHR 0x27) cs = Some r"
        by (auto simp: regexp_exec_def)
      from match_string_shorter [OF this] Cons show ?thesis by simp
    next
      case sq: False
      show ?thesis
      proof (cases cs)
        case Nil
        with assms Cons dq sq show ?thesis by (simp add: regexp_exec_def split: if_splits)
      next
        case (Cons d ds)
        with assms \<open>s = c # cs\<close> dq sq
        have "match_block ds = Some r \<or> match_line ds = Some r"
          by (auto simp: regexp_exec_def split: if_splits)
        then show ?thesis
          using match_block_shorter [of ds r] match_line_shorter [of ds r] Cons \<open>s = c # cs\<close>
          by auto
      qed
    qed
  qed
qed

text \<open>
  \<open>content.replace(regexp, callback)\<close> with the \<open>g\<close> flag: from left to right, a match is
  replaced and the scan goes on behind it; where nothing matches, the character stays.
\<close>

function stripComments :: "string \<Rightarrow> string" where
  "stripComments [] = []"
| "stripComments (c # cs) =
     (case regexp_exec (c # cs) of
        None \<Rightarrow> c # stripComments cs
      | Some (g, rest) \<Rightarrow>
          replacer g (take (length (c # cs) - length rest) (c # cs)) @ stripComments rest)"
  by pat_completeness auto
termination
proof (relation "measure length")
  show "wf (measure length)" by simp
next
  fix c cs x2 x y
  assume "regexp_exec (c # cs) = Some x2" "(x, y) = x2"
  then have "length y < length (c # cs)" using regexp_exec_shorter [of "c # cs" x y] by simp
  then show "(y, c # cs) \<in> measure length" by simp
next
  fix c cs
  assume "regexp_exec (c # cs) = None"
  show "(cs, c # cs) \<in> measure length" by simp
qed

declare stripComments.simps [simp del]

subsection \<open>\<open>OptionsResolver\<close>\<close>

definition JSLINTRC :: string where
  "JSLINTRC = ''jslint.conf''"

text \<open>
  The cache is an object without prototype; a stored \<open>undefined\<close> is \<open>Some None\<close>.
  \<open>configPath\<close> is only tested for truthiness, so \<open>None\<close> stands for \<open>null\<close> and for
  \<open>undefined\<close>; \<open>jslintOptions\<close> can be returned, so its \<open>null\<close> is \<open>Some JNull\<close>, which is
  what the constructor sets.
\<close>

record OptionsResolver =
  configPath :: "string option"
  jslintOptions :: "json option"
  optionsCache :: "string \<rightharpoonup> json option"
  version :: "string option"

definition new_OptionsResolver :: OptionsResolver where
  "new_OptionsResolver =
     \<lparr> configPath = None, jslintOptions = Some JNull, optionsCache = Map.empty,
       version = None \<rparr>"

definition configure :: "string option \<Rightarrow> json option \<Rightarrow> OptionsResolver \<Rightarrow> OptionsResolver" where
  "configure path opts this =
     this\<lparr> optionsCache := Map.empty, configPath := path, jslintOptions := opts \<rparr>"

definition clear :: "OptionsResolver \<Rightarrow> OptionsResolver" where
  "clear this = this\<lparr> optionsCache := Map.empty \<rparr>"

text \<open>
  \<open>readJsonFile\<close>: whatever goes wrong inside the \<open>try\<close> (the path is no readable file,
  the text does not parse) ends in a message and the empty object.
\<close>

definition readJsonFile ::
  "env \<Rightarrow> string \<Rightarrow> string option \<Rightarrow> connection \<Rightarrow> json \<times> connection" where
  "readJsonFile e file extendedFrom conn =
     (let location = (case extendedFrom of
                        None \<Rightarrow> file
                      | Some x \<Rightarrow> if x \<noteq> [] then file @ '' extended from '' @ x else file);
          failed = (JObj [], showErrorMessage
                      (''Can't load JSLint configuration from file '' @ location
                         @ ''. Please check the file for syntax errors.'') conn)
      in case files e file of
           Some (File text) \<Rightarrow>
             (case JSON_parse e (stripComments text) of
                Some v \<Rightarrow> (v, conn)
              | None \<Rightarrow> failed)
         | _ \<Rightarrow> failed)"

text \<open>
  \<open>readJSLintFile\<close>. The first argument is the room left on the call stack; a chain of
  \<open>extends\<close> that is longer, or that runs in a circle, exhausts it. \<open>content.extends\<close>
  throws when the file holds \<open>null\<close>, and \<open>path.resolve\<close> throws when \<open>extends\<close> is truthy
  but no string.
\<close>

fun readJSLintFile ::
  "nat \<Rightarrow> env \<Rightarrow> string \<Rightarrow> string option \<Rightarrow> connection \<Rightarrow> (error + json) \<times> connection" where
  "readJSLintFile 0 e file extendedFrom conn = (Inl RangeError, conn)"
| "readJSLintFile (Suc depth) e file extendedFrom conn =
     (case readJsonFile e file extendedFrom conn of
        (content, conn1) \<Rightarrow>
          if content = JNull then (Inl TypeError, conn1)
          else if truthy (get_prop content ''extends'') then
            (case get_prop content ''extends'' of
               Some (JStr ext) \<Rightarrow>
                 (let baseFile = path_resolve (cwd e) (dirname file) ext
                  in if existsSync e baseFile then
                       (case readJSLintFile depth e baseFile (Some file) conn1 of
                          (Inl err, conn2) \<Rightarrow> (Inl err, conn2)
                        | (Inr base, conn2) \<Rightarrow>
                            (Inr (delete_prop ''extends'' (mergeWith e base content customizer)),
                             conn2))
                     else
                       (Inr (delete_prop ''extends'' content),
                        showErrorMessage
                          (''Can't find JSLint file '' @ baseFile @ '' extended from '' @ file)
                          conn1))
             | _ \<Rightarrow> (Inl TypeError, conn1))
          else (Inr content, conn1))"

text \<open>\<open>p && fs.existsSync(p)\<close>: the path when it is truthy and exists.\<close>

fun existing :: "env \<Rightarrow> string option \<Rightarrow> string option" where
  "existing e None = None"
| "existing e (Some p) = (if p \<noteq> [] \<and> existsSync e p then Some p else None)"

text \<open>
  \<open>jslintOptions && jslintOptions.config && fs.existsSync(jslintOptions.config)\<close>:
  \<open>existsSync\<close> is false for anything but a string.
\<close>

fun legacy_config :: "env \<Rightarrow> json option \<Rightarrow> string option" where
  "legacy_config e (Some (JObj ps)) =
     (case map_of ps ''config'' of Some (JStr c) \<Rightarrow> existing e (Some c) | _ \<Rightarrow> None)"
| "legacy_config e opts = None"

text \<open>
  The two tails of \<open>readOptions\<close>: the configuration file of the home directory, then the
  inline options; before them, for a truthy \<open>fsPath\<close>, the nearest \<open>package.json\<close> and the
  nearest \<open>jslint.conf\<close>.
\<close>

definition readHomeOptions ::
  "env \<Rightarrow> OptionsResolver \<Rightarrow> connection \<Rightarrow> (error + json option) \<times> connection" where
  "readHomeOptions e this conn =
     (case (if truthy_string (home e) then home e else None) of
        Some h \<Rightarrow>
          (let file = path_join h JSLINTRC
           in if existsSync e file then
                (case readJSLintFile (stack e) e file None conn of
                   (Inl err, conn1) \<Rightarrow> (Inl err, conn1)
                 | (Inr v, conn1) \<Rightarrow> (Inr (Some v), conn1))
              else (Inr (jslintOptions this), conn))
      | None \<Rightarrow> (Inr (jslintOptions this), conn))"

definition readNearestConf ::
  "env \<Rightarrow> OptionsResolver \<Rightarrow> string \<Rightarrow> connection \<Rightarrow> (error + json option) \<times> connection" where
  "readNearestConf e this fsPath conn =
     (case locateFile e fsPath JSLINTRC of
        Some configFile \<Rightarrow>
          (case readJSLintFile (stack e) e configFile None conn of
             (Inl err, conn1) \<Rightarrow> (Inl err, conn1)
           | (Inr v, conn1) \<Rightarrow> (Inr (Some v), conn1))
      | None \<Rightarrow> readHomeOptions e this conn)"

definition readOptions ::
  "env \<Rightarrow> OptionsResolver \<Rightarrow> string \<Rightarrow> connection \<Rightarrow> (error + json option) \<times> connection" where
  "readOptions e this fsPath conn =
     (case existing e (configPath this) of
        Some cp \<Rightarrow> (case readJsonFile e cp None conn of (v, conn1) \<Rightarrow> (Inr (Some v), conn1))
      | None \<Rightarrow>
     (case legacy_config e (jslintOptions this) of
        Some c \<Rightarrow> (case readJsonFile e c None conn of (v, conn1) \<Rightarrow> (Inr (Some v), conn1))
      | None \<Rightarrow>
     (if fsPath \<noteq> [] then
        (case locateFile e fsPath ''package.json'' of
           Some packageFile \<Rightarrow>
             (case readJsonFile e packageFile None conn of
                (content, conn1) \<Rightarrow>
                  if content = JNull then (Inl TypeError, conn1)
                  else if truthy (get_prop content ''jslintConfig'')
                       then (Inr (get_prop content ''jslintConfig''), conn1)
                       else readNearestConf e this fsPath conn1)
         | None \<Rightarrow> readNearestConf e this fsPath conn)
      else readHomeOptions e this conn)))"

text \<open>\<open>getOptions\<close>: \<open>this.optionsCache[fsPath]\<close> is \<open>undefined\<close> for a key that is not there.\<close>

definition getOptions ::
  "env \<Rightarrow> OptionsResolver \<Rightarrow> string \<Rightarrow> connection
     \<Rightarrow> (error + json option) \<times> OptionsResolver \<times> connection" where
  "getOptions e this fsPath conn =
     (let result = (case optionsCache this fsPath of None \<Rightarrow> None | Some v \<Rightarrow> v)
      in if \<not> truthy result then
           (case readOptions e this fsPath conn of
              (Inl err, conn1) \<Rightarrow> (Inl err, this, conn1)
            | (Inr r, conn1) \<Rightarrow>
                (Inr r, this\<lparr> optionsCache := (optionsCache this)(fsPath \<mapsto> r) \<rparr>, conn1))
         else (Inr result, this, conn))"

subsection \<open>\<open>FileMatcher\<close>\<close>

definition JSLINTIGNORE :: string where
  "JSLINTIGNORE = ''.jslintignore''"

text \<open>
  The field \<open>configPath\<close> of the class is \<open>excludeConfigPath\<close> here, and its methods
  \<open>configure\<close> and \<open>clear\<close> are \<open>configure_matcher\<close> and \<open>clear_matcher\<close>, since the
  names are taken; \<open>match\<close> is \<open>match_patterns\<close>. \<open>defaultExcludePatterns\<close> is \<open>null\<close>
  until the first \<open>configure\<close>. The cache is a plain object used as a dictionary from
  paths to verdicts, read with \<open>hasOwnProperty\<close>; the keys are the file-system paths that
  \<open>validate\<close> passes, so the names that every object inherits (\<open>__proto__\<close>,
  \<open>hasOwnProperty\<close>) are not among them.

  The last field is no field of the class. It is the cache that the module
  parse-gitignore keeps for itself, from the path of an ignore file to the patterns it
  parsed there. It is empty when the process starts, when the one \<open>FileMatcher\<close> of the
  server is made, and it lives as long; no method of the class touches it.
\<close>

record FileMatcher =
  excludeConfigPath :: "string option"
  defaultExcludePatterns :: "string list option"
  excludeCache :: "string \<rightharpoonup> bool"
  parsedIgnoreFiles :: "string \<rightharpoonup> string list"

definition new_FileMatcher :: FileMatcher where
  "new_FileMatcher =
     \<lparr> excludeConfigPath = None, defaultExcludePatterns = None, excludeCache = Map.empty,
       parsedIgnoreFiles = Map.empty \<rparr>"

text \<open>\<open>pickTrueKeys\<close>: the keys whose value is exactly \<open>true\<close>; none for \<open>undefined\<close>.\<close>

fun pickTrueKeys :: "(string \<times> json) list option \<Rightarrow> string list" where
  "pickTrueKeys None = []"
| "pickTrueKeys (Some obj) = map fst (filter (\<lambda>(k, v). v = JBool True) obj)"

definition configure_matcher ::
  "string option \<Rightarrow> (string \<times> json) list option \<Rightarrow> FileMatcher \<Rightarrow> FileMatcher" where
  "configure_matcher path exclude this =
     this\<lparr> excludeConfigPath := path, excludeCache := Map.empty,
           defaultExcludePatterns := Some (pickTrueKeys exclude) \<rparr>"

definition clear_matcher :: "FileMatcher \<Rightarrow> FileMatcher" where
  "clear_matcher this = this\<lparr> excludeCache := Map.empty \<rparr>"

text \<open>
  \<open>relativeTo\<close>: \<open>folder && 0 === fsPath.indexOf(folder)\<close> asks for a truthy folder that is
  a prefix of the path.
\<close>

fun relativeTo :: "string \<Rightarrow> string option \<Rightarrow> string" where
  "relativeTo fsPath None = fsPath"
| "relativeTo fsPath (Some folder) =
     (if folder \<noteq> [] \<and> prefix folder fsPath then
        (let cuttingPoint = length folder;
             cuttingPoint' = (if cuttingPoint < length fsPath \<and> fsPath ! cuttingPoint = CHR ''/''
                              then cuttingPoint + 1 else cuttingPoint)
         in drop cuttingPoint' fsPath)
      else fsPath)"

text \<open>\<open>folderOf\<close>: the path before its last slash, the path itself when it has none.\<close>

definition folderOf :: "string \<Rightarrow> string" where
  "folderOf fsPath =
     (if CHR ''/'' \<in> set fsPath
      then rev (tl (dropWhile (\<lambda>c. c \<noteq> CHR ''/'') (rev fsPath)))
      else fsPath)"

text \<open>\<open>match\<close>: \<open>_.some\<close> over the patterns; of \<open>null\<close> it is false.\<close>

fun match_patterns :: "env \<Rightarrow> string list option \<Rightarrow> string \<Rightarrow> string option \<Rightarrow> bool" where
  "match_patterns e None path root = False"
| "match_patterns e (Some excludePatterns) path root =
     list_ex (\<lambda>pattern. minimatch e (relativeTo path root) pattern) excludePatterns"

text \<open>
  \<open>processIgnoreFile\<close> is parse-gitignore, called with the path alone. For a path that
  is empty or does not exist the module returns no patterns. Otherwise it answers from
  its own cache when it has parsed that path before, without looking at the file; else it
  reads the file, splits it into patterns and keeps them under the path. Reading a
  directory throws. \<open>excludes\<close> only passes paths that it has found to exist.
\<close>

definition processIgnoreFile ::
  "env \<Rightarrow> FileMatcher \<Rightarrow> string \<Rightarrow> (error + string list) \<times> FileMatcher" where
  "processIgnoreFile e this file =
     (if file = [] \<or> \<not> existsSync e file then (Inr [], this)
      else
        (case parsedIgnoreFiles this file of
           Some patterns \<Rightarrow> (Inr patterns, this)
         | None \<Rightarrow>
             (case files e file of
                Some (File text) \<Rightarrow>
                  (Inr (parse_gitignore e text),
                   this\<lparr> parsedIgnoreFiles := (parsedIgnoreFiles this)(file \<mapsto> parse_gitignore e text) \<rparr>)
              | _ \<Rightarrow> (Inl IOError, this))))"

text \<open>The part of \<open>excludes\<close> between the cache lookup and the cache store.\<close>

definition shouldBeExcluded ::
  "env \<Rightarrow> FileMatcher \<Rightarrow> string \<Rightarrow> string option \<Rightarrow> (error + bool) \<times> FileMatcher" where
  "shouldBeExcluded e this fsPath root =
     (case existing e (excludeConfigPath this) of
        Some cp \<Rightarrow>
          (case processIgnoreFile e this cp of
             (Inl err, this1) \<Rightarrow> (Inl err, this1)
           | (Inr patterns, this1) \<Rightarrow>
               (Inr (match_patterns e (Some patterns) fsPath root), this1))
      | None \<Rightarrow>
          (case locateFile e fsPath JSLINTIGNORE of
             Some ignoreFile \<Rightarrow>
               (case processIgnoreFile e this ignoreFile of
                  (Inl err, this1) \<Rightarrow> (Inl err, this1)
                | (Inr patterns, this1) \<Rightarrow>
                    (Inr (match_patterns e (Some patterns) fsPath (Some (folderOf ignoreFile))),
                     this1))
           | None \<Rightarrow> (Inr (match_patterns e (defaultExcludePatterns this) fsPath root), this)))"

definition excludes ::
  "env \<Rightarrow> FileMatcher \<Rightarrow> string option \<Rightarrow> string option \<Rightarrow> (error + bool) \<times> FileMatcher" where
  "excludes e this fsPath root =
     (case fsPath of
        None \<Rightarrow> (Inr True, this)
      | Some p \<Rightarrow>
          if p \<noteq> [] then
            (case excludeCache this p of
               Some v \<Rightarrow> (Inr v, this)
             | None \<Rightarrow>
                 (case shouldBeExcluded e this p root of
                    (Inl err, this1) \<Rightarrow> (Inl err, this1)
                  | (Inr v, this1) \<Rightarrow>
                      (Inr v, this1\<lparr> excludeCache := (excludeCache this1)(p \<mapsto> v) \<rparr>)))
          else (Inr True, this))"

subsection \<open>\<open>Linter\<close>\<close>

record Linter =
  options :: OptionsResolver
  fileMatcher :: FileMatcher
  workspaceRoot :: "string option"
  connection :: connection

text \<open>\<open>v || {}\<close>\<close>

fun or_empty :: "json option \<Rightarrow> json" where
  "or_empty None = JObj []"
| "or_empty (Some v) = (if truthy (Some v) then v else JObj [])"

definition toJSLintError :: "nat \<times> RawWarning \<Rightarrow> JSLintError" where
  "toJSLintError iw =
     \<lparr> code = w_code (snd iw), err_id = fst iw, line = w_line (snd iw),
       character = w_column (snd iw), reason = w_message (snd iw) \<rparr>"

text \<open>
  \<open>lintContent\<close>. When \<open>JSLINT.data()\<close> throws, the \<open>catch\<close> shows a message and leaves
  \<open>output\<close> undefined; the next statement reads \<open>output.warnings\<close>.
\<close>

definition lintContent ::
  "env \<Rightarrow> Linter \<Rightarrow> string \<Rightarrow> string \<Rightarrow> (error + JSLintError list) \<times> Linter" where
  "lintContent e this content fsPath =
     (case getOptions e (options this) fsPath (connection this) of
        (Inl err, opts1, conn1) \<Rightarrow> (Inl err, this\<lparr> options := opts1, connection := conn1 \<rparr>)
      | (Inr r, opts1, conn1) \<Rightarrow>
          (let opts = or_empty r;
               globals = or_empty (get_prop opts ''globals'')
           in case JSLINT_data e content opts globals of
                None \<Rightarrow>
                  (Inl TypeError,
                   this\<lparr> options := opts1,
                         connection := showErrorMessage
                           (''JSLint library does not export a data() method.  ''
                              @ ''The JSLint verions you are using is probably out of date.'')
                           conn1 \<rparr>)
              | Some warnings \<Rightarrow>
                  (Inr (map toJSLintError (enumerate 0 warnings)),
                   this\<lparr> options := opts1, connection := conn1 \<rparr>)))"

text \<open>
  \<open>validate\<close>, for a document given by its URI and its text. \<open>lintContent\<close> is only
  reached with a truthy path, since \<open>excludes\<close> is true for any other.
\<close>

definition validate :: "env \<Rightarrow> Linter \<Rightarrow> string \<times> string \<Rightarrow> (error + unit) \<times> Linter" where
  "validate e this document =
     (let uri = fst document;
          fsPath = (if truthy_string (uriToFilePath e uri) then uriToFilePath e uri
                    else workspaceRoot this)
      in case excludes e (fileMatcher this) fsPath (workspaceRoot this) of
           (Inl err, fm1) \<Rightarrow> (Inl err, this\<lparr> fileMatcher := fm1 \<rparr>)
         | (Inr True, fm1) \<Rightarrow>
             (Inr (), this\<lparr> fileMatcher := fm1,
                             connection := sendDiagnostics uri [] (connection this) \<rparr>)
         | (Inr False, fm1) \<Rightarrow>
             (case lintContent e (this\<lparr> fileMatcher := fm1 \<rparr>) (snd document)
                     (case fsPath of Some p \<Rightarrow> p | None \<Rightarrow> []) of
                (Inl err, this1) \<Rightarrow> (Inl err, this1)
              | (Inr errors, this1) \<Rightarrow>
                  (Inr (), this1\<lparr> connection :=
                     sendDiagnostics uri (map makeDiagnostic errors) (connection this1) \<rparr>)))"

subsection \<open>Runs of calls\<close>

text \<open>
  Later calls of \<open>excludes\<close> and of \<open>getOptions\<close> on the same object, each with its own
  arguments and its own state of the world.
\<close>

fun excludes_calls ::
  "(env \<times> string option \<times> string option) list \<Rightarrow> FileMatcher \<Rightarrow> FileMatcher" where
  "excludes_calls [] this = this"
| "excludes_calls ((e, fsPath, root) # calls) this =
     excludes_calls calls (snd (excludes e this fsPath root))"

fun getOptions_calls ::
  "(env \<times> string) list \<Rightarrow> OptionsResolver \<times> connection \<Rightarrow> OptionsResolver \<times> connection" where
  "getOptions_calls [] sc = sc"
| "getOptions_calls ((e, fsPath) # calls) sc =
     getOptions_calls calls (snd (getOptions e (fst sc) fsPath (snd sc)))"

text \<open>
  What the server does with its one \<open>FileMatcher\<close>: \<open>configure\<close> when the settings
  change, \<open>clear\<close> when a watched file changes, and \<open>excludes\<close> in \<open>validate\<close>, always with
  \<open>workspaceRoot\<close>, which is set once. \<open>matcher_session\<close> runs such calls one after the
  other while the files stay as they are.
\<close>

datatype matcher_call =
  Configure "string option" "(string \<times> json) list option"
| Clear
| Excludes "string option"

fun matcher_session ::
  "env \<Rightarrow> string option \<Rightarrow> matcher_call list \<Rightarrow> FileMatcher \<Rightarrow> FileMatcher" where
  "matcher_session e root [] this = this"
| "matcher_session e root (Configure path exclude # calls) this =
     matcher_session e root calls (configure_matcher path exclude this)"
| "matcher_session e root (Clear # calls) this =
     matcher_session e root calls (clear_matcher this)"
| "matcher_session e root (Excludes fsPath # calls) this =
     matcher_session e root calls (snd (excludes e this fsPath root))"

subsection \<open>Worlds for the examples\<close>

text \<open>
  Stand-ins for the libraries in the examples: a glob matcher with \<open>*\<close>, \<open>?\<close> and \<open>**\<close>
  in the shell convention for minimatch, one pattern per non-empty line for
  parse-gitignore, for \<open>JSON.parse\<close> the table of the texts that the example holds
  with the values they parse to, and for \<open>_.mergeWith\<close> a merge of plain objects that
  asks the customizer first and otherwise merges a source object into the object on the
  other side and takes any other source value as it is.
\<close>

fun glob_segment :: "string \<Rightarrow> string \<Rightarrow> bool" where
  "glob_segment [] s = (s = [])"
| "glob_segment (p # ps) [] = (p = CHR ''*'' \<and> glob_segment ps [])"
| "glob_segment (p # ps) (c # cs) =
     (if p = CHR ''*'' then glob_segment ps (c # cs) \<or> glob_segment (p # ps) cs
      else (p = CHR ''?'' \<or> p = c) \<and> glob_segment ps cs)"

fun glob_segments :: "string list \<Rightarrow> string list \<Rightarrow> bool" where
  "glob_segments [] ts = (ts = [])"
| "glob_segments (p # ps) [] = (p = ''**'' \<and> glob_segments ps [])"
| "glob_segments (p # ps) (t # ts) =
     (if p = ''**'' then glob_segments ps (t # ts) \<or> glob_segments (p # ps) ts
      else glob_segment p t \<and> glob_segments ps ts)"

definition glob :: "string \<Rightarrow> string \<Rightarrow> bool" where
  "glob path pattern = glob_segments (split_slash pattern) (split_slash path)"

fun sample_merge :: "(json option \<Rightarrow> json \<Rightarrow> json option) \<Rightarrow> json option \<Rightarrow> json \<Rightarrow> json"
  and sample_merge_props ::
    "(json option \<Rightarrow> json \<Rightarrow> json option)
       \<Rightarrow> (string \<times> json) list \<Rightarrow> (string \<times> json) list \<Rightarrow> (string \<times> json) list" where
  "sample_merge cz objValue (JObj sps) =
     (case cz objValue (JObj sps) of
        Some newValue \<Rightarrow> newValue
      | None \<Rightarrow>
          JObj (sample_merge_props cz (case objValue of Some (JObj bps) \<Rightarrow> bps | _ \<Rightarrow> []) sps))"
| "sample_merge cz objValue srcValue =
     (case cz objValue srcValue of Some newValue \<Rightarrow> newValue | None \<Rightarrow> srcValue)"
| "sample_merge_props cz bps [] = bps"
| "sample_merge_props cz bps ((k, v) # sps) =
     sample_merge_props cz (AList.update k (sample_merge cz (map_of bps k) v) bps) sps"

definition sample_mergeWith ::
  "json \<Rightarrow> json \<Rightarrow> (json option \<Rightarrow> json \<Rightarrow> json option) \<Rightarrow> json" where
  "sample_mergeWith obj src cz =
     (case obj of
        JObj bps \<Rightarrow> (case src of JObj sps \<Rightarrow> JObj (sample_merge_props cz bps sps) | _ \<Rightarrow> obj)
      | _ \<Rightarrow> obj)"

definition ignore_lines :: "string \<Rightarrow> string list" where
  "ignore_lines text = filter (\<lambda>l. l \<noteq> []) (split_on (CHR 0x0A) text)"

definition no_data :: "string \<Rightarrow> json \<Rightarrow> json \<Rightarrow> RawWarning list option" where
  "no_data content opts globals = None"

definition example_env ::
  "(string \<times> fsnode) list \<Rightarrow> (string \<times> json) list
     \<Rightarrow> (string \<Rightarrow> json \<Rightarrow> json \<Rightarrow> RawWarning list option) \<Rightarrow> env" where
  "example_env disk parses engine =
     \<lparr> files = map_of disk, JSON_parse = map_of parses, home = None, cwd = ''/'',
       minimatch = glob, parse_gitignore = ignore_lines, mergeWith = sample_mergeWith,
       JSLINT_data = engine,
       uriToFilePath = Some, stack = 100 \<rparr>"

definition empty_env :: env where
  "empty_env = example_env [] [] no_data"

definition no_messages :: connection where
  "no_messages = \<lparr> shown = [], published = [] \<rparr>"

text \<open>A matcher configured with the static patterns \<open>{"build/**": true, "tmp/**": false}\<close>.\<close>

definition proj_matcher :: FileMatcher where
  "proj_matcher =
     configure_matcher None (Some [(''build/**'', JBool True), (''tmp/**'', JBool False)])
       new_FileMatcher"

text \<open>
  A project with an ignore file, before and after the file is rewritten, and a world whose
  ignore file lies elsewhere, for a matcher configured with its path.
\<close>

definition ignore_env :: env where
  "ignore_env = example_env [(''/proj/.jslintignore'', File ''build/**'')] [] no_data"

definition rewritten_env :: env where
  "rewritten_env = example_env [(''/proj/.jslintignore'', File ''src/**'')] [] no_data"

definition elsewhere_env :: env where
  "elsewhere_env = example_env [(''/etc/lintignore'', File ''build/**'')] [] no_data"

definition elsewhere_matcher :: FileMatcher where
  "elsewhere_matcher = configure_matcher (Some ''/etc/lintignore'') None new_FileMatcher"

text \<open>A project whose \<open>jslint.conf\<close> holds the empty object.\<close>

definition conf_env :: env where
  "conf_env = example_env [(''/proj/jslint.conf'', File ''{}'')] [(''{}'', JObj [])] no_data"

text \<open>
  Two nested packages: only the outer \<open>package.json\<close> has the \<open>jslintConfig\<close> property,
  and a \<open>jslint.conf\<close> lies beside it.
\<close>

definition nested_env :: env where
  "nested_env = example_env
     [(''/a/package.json'', File ''{\"jslintConfig\": {\"x\": 1}}''),
      (''/a/b/package.json'', File ''{\"name\": \"b\"}''),
      (''/a/jslint.conf'', File ''{\"y\": 2}'')]
     [(''{\"jslintConfig\": {\"x\": 1}}'', JObj [(''jslintConfig'', JObj [(''x'', JNum 1)])]),
      (''{\"name\": \"b\"}'', JObj [(''name'', JStr ''b'')]),
      (''{\"y\": 2}'', JObj [(''y'', JNum 2)])]
     no_data"


text \<open>An engine that reports one warning, and a linter for the project \<open>/proj\<close>.\<close>

definition one_warning :: "string \<Rightarrow> json \<Rightarrow> json \<Rightarrow> RawWarning list option" where
  "one_warning content opts globals =
     Some [\<lparr> w_code = Some ''W1'', w_line = 1, w_column = 1, w_message = ''Missing semicolon'' \<rparr>]"

definition proj_linter :: Linter where
  "proj_linter =
     \<lparr> options = new_OptionsResolver, fileMatcher = proj_matcher,
       workspaceRoot = Some ''/proj'', connection = no_messages \<rparr>"

section \<open>Theorems\<close>

subsection \<open>Diagnostics\<close>

lemma clamp_problem_line: "line (clamp_problem p) = max (line p) 1"
  by (simp add: clamp_problem_def Let_def max_def)

lemma clamp_problem_character: "character (clamp_problem p) = max (character p) 1"
  by (simp add: clamp_problem_def Let_def max_def)

lemma clamp_problem_code: "code (clamp_problem p) = code p"
  by (simp add: clamp_problem_def Let_def)

lemma clamp_problem_reason: "reason (clamp_problem p) = reason p"
  by (simp add: clamp_problem_def Let_def)

text \<open>
  Claim C6, as the code has it. For every raw warning, \<open>makeDiagnostic\<close> gives a
  diagnostic whose range is the single point \<open>(max line 1 - 1, max character 1 - 1)\<close>,
  start and end alike: each coordinate is clamped on its own, so a line that is not
  positive gives line 0, a character that is not positive gives character 0, and the
  start is \<open>(0, 0)\<close> when both are. The message is the reason, followed by the code in
  parentheses exactly when there is a code; the severity is \<open>Error\<close> when there is no
  code or the code starts with \<open>E\<close>, and \<open>Warning\<close> otherwise. "There is a code" is
  JavaScript's truthiness: an undefined code and the empty string both count as none.
\<close>

theorem makeDiagnostic_spec:
  "range_end (diag_range (makeDiagnostic p)) = range_start (diag_range (makeDiagnostic p))
   \<and> range_start (diag_range (makeDiagnostic p))
       = \<lparr> pos_line = max (line p) 1 - 1, pos_character = max (character p) 1 - 1 \<rparr>
   \<and> (line p \<le> 0 \<longrightarrow> pos_line (range_start (diag_range (makeDiagnostic p))) = 0)
   \<and> (character p \<le> 0 \<longrightarrow> pos_character (range_start (diag_range (makeDiagnostic p))) = 0)
   \<and> (line p \<le> 0 \<and> character p \<le> 0 \<longrightarrow>
        range_start (diag_range (makeDiagnostic p)) = \<lparr> pos_line = 0, pos_character = 0 \<rparr>)
   \<and> (\<forall>c. code p = Some c \<and> c \<noteq> [] \<longrightarrow>
        message (makeDiagnostic p) = reason p @ '' ('' @ c @ '')'')
   \<and> (\<not> truthy_string (code p) \<longrightarrow> message (makeDiagnostic p) = reason p)
   \<and> (severity (makeDiagnostic p) = Error
        \<longleftrightarrow> \<not> truthy_string (code p) \<or> (\<exists>cs. code p = Some (CHR ''E'' # cs)))
   \<and> (severity (makeDiagnostic p) = Warning
        \<longleftrightarrow> \<not> (\<not> truthy_string (code p) \<or> (\<exists>cs. code p = Some (CHR ''E'' # cs))))"
proof -
  have sev: "severity (makeDiagnostic p) = getSeverity (clamp_problem p)"
    by (simp add: makeDiagnostic_def Let_def)
  have gs: "getSeverity (clamp_problem p) = Error
        \<longleftrightarrow> \<not> truthy_string (code p) \<or> (\<exists>cs. code p = Some (CHR ''E'' # cs))"
    by (cases "code p") (auto simp: clamp_problem_code split: list.splits)
  have msg1: "\<forall>c. code p = Some c \<and> c \<noteq> [] \<longrightarrow>
        message (makeDiagnostic p) = reason p @ '' ('' @ c @ '')''"
    by (simp add: makeDiagnostic_def Let_def clamp_problem_code clamp_problem_reason)
  have msg2: "\<not> truthy_string (code p) \<longrightarrow> message (makeDiagnostic p) = reason p"
    by (cases "code p")
       (simp_all add: makeDiagnostic_def Let_def clamp_problem_code clamp_problem_reason)
  have rng: "diag_range (makeDiagnostic p)
       = \<lparr> range_start = \<lparr> pos_line = max (line p) 1 - 1, pos_character = max (character p) 1 - 1 \<rparr>,
           range_end = \<lparr> pos_line = max (line p) 1 - 1, pos_character = max (character p) 1 - 1 \<rparr> \<rparr>"
    by (simp add: makeDiagnostic_def Let_def clamp_problem_line clamp_problem_character)
  have w: "severity (makeDiagnostic p) = Warning \<longleftrightarrow> severity (makeDiagnostic p) \<noteq> Error"
    by (cases "severity (makeDiagnostic p)") simp_all
  have r: "range_end (diag_range (makeDiagnostic p)) = range_start (diag_range (makeDiagnostic p))
   \<and> range_start (diag_range (makeDiagnostic p))
       = \<lparr> pos_line = max (line p) 1 - 1, pos_character = max (character p) 1 - 1 \<rparr>
   \<and> (line p \<le> 0 \<longrightarrow> pos_line (range_start (diag_range (makeDiagnostic p))) = 0)
   \<and> (character p \<le> 0 \<longrightarrow> pos_character (range_start (diag_range (makeDiagnostic p))) = 0)
   \<and> (line p \<le> 0 \<and> character p \<le> 0 \<longrightarrow>
        range_start (diag_range (makeDiagnostic p)) = \<lparr> pos_line = 0, pos_character = 0 \<rparr>)"
    unfolding rng by (simp add: max_def)
  have s: "(severity (makeDiagnostic p) = Error
        \<longleftrightarrow> \<not> truthy_string (code p) \<or> (\<exists>cs. code p = Some (CHR ''E'' # cs)))
   \<and> (severity (makeDiagnostic p) = Warning
        \<longleftrightarrow> \<not> (\<not> truthy_string (code p) \<or> (\<exists>cs. code p = Some (CHR ''E'' # cs))))"
    unfolding w unfolding sev gs by simp
  from r msg1 msg2 s show ?thesis by (intro conjI) (elim conjE, assumption)+
qed

theorem makeDiagnostic_spec_witness:
  "makeDiagnostic \<lparr> code = Some ''W1'', err_id = 0, line = 0, character = -3,
                    reason = ''Missing semicolon'' \<rparr>
   = \<lparr> message = ''Missing semicolon (W1)'', severity = Warning, source = ''jsLint'',
       diag_code = Some ''W1'',
       diag_range = \<lparr> range_start = \<lparr> pos_line = 0, pos_character = 0 \<rparr>,
                      range_end = \<lparr> pos_line = 0, pos_character = 0 \<rparr> \<rparr> \<rparr>"
proof -
  let ?p = "\<lparr> code = Some ''W1'', err_id = 0, line = 0, character = -3,
              reason = ''Missing semicolon'' \<rparr>"
  have h: "line ?p \<le> 0 \<and> character ?p \<le> 0" by simp
  have c: "code ?p = Some ''W1'' \<and> ''W1'' \<noteq> []" by simp
  note T = makeDiagnostic_spec [of ?p]
  have e: "range_end (diag_range (makeDiagnostic ?p)) = range_start (diag_range (makeDiagnostic ?p))"
    by (rule T [THEN conjunct1])
  have s: "range_start (diag_range (makeDiagnostic ?p)) = \<lparr> pos_line = 0, pos_character = 0 \<rparr>"
    by (rule T [THEN conjunct2, THEN conjunct2, THEN conjunct2, THEN conjunct2, THEN conjunct1,
                THEN mp, OF h])
  have m: "message (makeDiagnostic ?p) = reason ?p @ '' ('' @ ''W1'' @ '')''"
    by (rule T [THEN conjunct2, THEN conjunct2, THEN conjunct2, THEN conjunct2, THEN conjunct2,
                THEN conjunct1, THEN spec, THEN mp, OF c])
  have v: "severity (makeDiagnostic ?p) = Warning"
    by (simp add: makeDiagnostic_def clamp_problem_def Let_def)
  have o: "source (makeDiagnostic ?p) = ''jsLint''" "diag_code (makeDiagnostic ?p) = Some ''W1''"
    by (simp_all add: makeDiagnostic_def clamp_problem_def Let_def)
  have "makeDiagnostic ?p
      = \<lparr> message = message (makeDiagnostic ?p), severity = severity (makeDiagnostic ?p),
          source = source (makeDiagnostic ?p), diag_code = diag_code (makeDiagnostic ?p),
          diag_range = \<lparr> range_start = range_start (diag_range (makeDiagnostic ?p)),
                         range_end = range_end (diag_range (makeDiagnostic ?p)) \<rparr> \<rparr>"
    by simp
  then show ?thesis unfolding e s m v o by simp
qed

text \<open>
  Claim C6 as stated fails where it concludes that a warning with line \<open>\<le> 0\<close> or
  character \<open>\<le> 0\<close> starts at \<open>(0, 0)\<close>: with line 0 and character 5 the start is
  \<open>(0, 4)\<close>.
\<close>

theorem makeDiagnostic_clamps_each_coordinate:
  "range_start (diag_range (makeDiagnostic
       \<lparr> code = Some ''W1'', err_id = 0, line = 0, character = 5,
         reason = ''Missing semicolon'' \<rparr>))
     = \<lparr> pos_line = 0, pos_character = 4 \<rparr>"
  by (simp add: makeDiagnostic_def clamp_problem_def Let_def)

subsection \<open>The exclusion matcher\<close>

lemma excludes_cached:
  "excludeCache this p = Some v \<Longrightarrow> p \<noteq> [] \<Longrightarrow> excludes e this (Some p) root = (Inr v, this)"
  by (simp add: excludes_def)

lemma processIgnoreFile_keeps:
  "excludeCache (snd (processIgnoreFile e this f)) = excludeCache this"
  "excludeConfigPath (snd (processIgnoreFile e this f)) = excludeConfigPath this"
  "defaultExcludePatterns (snd (processIgnoreFile e this f)) = defaultExcludePatterns this"
  by (simp_all add: processIgnoreFile_def split: option.splits fsnode.splits)

lemma shouldBeExcluded_keeps:
  "excludeCache (snd (shouldBeExcluded e this p root)) = excludeCache this"
  "excludeConfigPath (snd (shouldBeExcluded e this p root)) = excludeConfigPath this"
  "defaultExcludePatterns (snd (shouldBeExcluded e this p root)) = defaultExcludePatterns this"
proof -
  have a: "\<And>f. excludeCache (snd (case processIgnoreFile e this f of
                 (Inl err, this1) \<Rightarrow> (Inl err, this1)
               | (Inr patterns, this1) \<Rightarrow> (Inr (g patterns), this1))) = excludeCache this" for g :: "string list \<Rightarrow> bool"
    using processIgnoreFile_keeps(1) [of e this]
    by (auto split: prod.splits sum.splits) (metis snd_conv)+
  have b: "\<And>f. excludeConfigPath (snd (case processIgnoreFile e this f of
                 (Inl err, this1) \<Rightarrow> (Inl err, this1)
               | (Inr patterns, this1) \<Rightarrow> (Inr (g patterns), this1))) = excludeConfigPath this" for g :: "string list \<Rightarrow> bool"
    using processIgnoreFile_keeps(2) [of e this]
    by (auto split: prod.splits sum.splits) (metis snd_conv)+
  have c: "\<And>f. defaultExcludePatterns (snd (case processIgnoreFile e this f of
                 (Inl err, this1) \<Rightarrow> (Inl err, this1)
               | (Inr patterns, this1) \<Rightarrow> (Inr (g patterns), this1))) = defaultExcludePatterns this" for g :: "string list \<Rightarrow> bool"
    using processIgnoreFile_keeps(3) [of e this]
    by (auto split: prod.splits sum.splits) (metis snd_conv)+
  show "excludeCache (snd (shouldBeExcluded e this p root)) = excludeCache this"
    unfolding shouldBeExcluded_def by (simp add: a split: option.splits)
  show "excludeConfigPath (snd (shouldBeExcluded e this p root)) = excludeConfigPath this"
    unfolding shouldBeExcluded_def by (simp add: b split: option.splits)
  show "defaultExcludePatterns (snd (shouldBeExcluded e this p root)) = defaultExcludePatterns this"
    unfolding shouldBeExcluded_def by (simp add: c split: option.splits)
qed

lemma excludes_keeps:
  "excludeCache this p = Some v \<Longrightarrow> excludeCache (snd (excludes e this q root)) p = Some v"
proof -
  assume c: "excludeCache this p = Some v"
  show ?thesis
  proof (cases "\<exists>x. q = Some x \<and> x \<noteq> [] \<and> excludeCache this x = None")
    case False
    then show ?thesis using c by (auto simp: excludes_def split: option.splits)
  next
    case True
    then obtain x where x: "q = Some x" "x \<noteq> []" "excludeCache this x = None" by blast
    obtain r this1 where s: "shouldBeExcluded e this x root = (r, this1)"
      by (cases "shouldBeExcluded e this x root") auto
    have k: "excludeCache this1 = excludeCache this"
      using shouldBeExcluded_keeps(1) [of e this x root] s by simp
    have "x \<noteq> p" using x(3) c by auto
    then show ?thesis
      using c k by (cases r) (simp_all add: excludes_def x s)
  qed
qed

lemma excludes_calls_keeps:
  "excludeCache this p = Some v \<Longrightarrow> excludeCache (excludes_calls calls this) p = Some v"
proof (induction calls arbitrary: this)
  case Nil
  then show ?case by simp
next
  case (Cons call calls)
  obtain e q r where call: "call = (e, q, r)" by (cases call) auto
  show ?case unfolding call excludes_calls.simps
    by (rule Cons.IH) (rule excludes_keeps [OF Cons.prems])
qed

lemma excludes_stores:
  "excludes e this (Some p) root = (Inr v, this1) \<Longrightarrow> p \<noteq> [] \<Longrightarrow> excludeCache this1 p = Some v"
  by (auto simp: excludes_def split: option.splits sum.splits prod.splits)

lemma relativeTo_prefix:
  "root \<noteq> [] \<Longrightarrow> relativeTo (root @ rest) (Some root)
     = (case rest of [] \<Rightarrow> [] | c # cs \<Rightarrow> if c = CHR ''/'' then cs else rest)"
  by (cases rest) (simp_all add: Let_def nth_append)

lemma relativeTo_other:
  "\<not> prefix root p \<Longrightarrow> relativeTo p (Some root) = p"
  "relativeTo p (Some []) = p" "relativeTo p None = p"
  by simp_all

lemma excludes_fresh:
  "p \<noteq> [] \<Longrightarrow> excludeCache this p = None \<Longrightarrow>
   fst (excludes e this (Some p) root) = fst (shouldBeExcluded e this p root)"
  by (simp add: excludes_def split: sum.splits prod.splits)

text \<open>
  Claim C9. \<open>excludes\<close> answers true, and changes nothing, for a path that is null or
  undefined and for the empty string, whatever the root, the configured patterns, the
  cache and the file system are.
\<close>

theorem excludes_no_path:
  "excludes e this None root = (Inr True, this)
   \<and> excludes e this (Some []) root = (Inr True, this)"
  by (simp add: excludes_def)

text \<open>
  Claim C10. The verdict is stored under the path alone. Once \<open>excludes\<close> has returned
  the verdict \<open>v\<close> for a non-empty path \<open>p\<close> with some root, every later call for \<open>p\<close>
  returns \<open>v\<close> and leaves the matcher as it is, with any root \<open>r'\<close>, in any world \<open>e'\<close>
  (so no pattern is evaluated and no ignore file is read), and after any run of other
  calls of \<open>excludes\<close> in between. (\<open>configure\<close> and \<open>clear\<close> empty the cache; they are not
  among the calls of the run.)
\<close>

theorem excludes_memoized:
  assumes "excludes e this (Some p) r = (Inr v, this1)" and "p \<noteq> []"
  shows "excludes e' (excludes_calls calls this1) (Some p) r'
           = (Inr v, excludes_calls calls this1)"
  by (rule excludes_cached [OF excludes_calls_keeps [OF excludes_stores [OF assms]] assms(2)])

theorem excludes_memoized_witness:
  "fst (excludes empty_env proj_matcher (Some ''/proj/build/out.js'') (Some ''/proj'')) = Inr True
   \<and> fst (excludes empty_env proj_matcher (Some ''/proj/build/out.js'') (Some ''/pro'')) = Inr False
   \<and> fst (excludes empty_env
          (excludes_calls [(empty_env, Some ''/proj/src/out.js'', Some ''/proj'')]
             (snd (excludes empty_env proj_matcher (Some ''/proj/build/out.js'') (Some ''/proj''))))
          (Some ''/proj/build/out.js'') (Some ''/pro'')) = Inr True"
proof -
  let ?p = "''/proj/build/out.js''"
  let ?first = "excludes empty_env proj_matcher (Some ?p) (Some ''/proj'')"
  have v: "fst ?first = Inr True" by code_simp
  have fresh: "fst (excludes empty_env proj_matcher (Some ?p) (Some ''/pro'')) = Inr False"
    by code_simp
  have h: "?first = (Inr True, snd ?first)" using v by (simp add: prod_eq_iff)
  have ne: "?p \<noteq> []" by simp
  from excludes_memoized [OF h ne,
      of empty_env "[(empty_env, Some ''/proj/src/out.js'', Some ''/proj'')]" "Some ''/pro''"]
  show ?thesis using v fresh by simp
qed

lemma fst_snd_case_result:
  "fst (case x of (Inl err, t) \<Rightarrow> (Inl err, t) | (Inr ps, t) \<Rightarrow> (Inr (g ps), t))
     = (case fst x of Inl err \<Rightarrow> Inl err | Inr ps \<Rightarrow> Inr (g ps))"
  "snd (case x of (Inl err, t) \<Rightarrow> (Inl err, t) | (Inr ps, t) \<Rightarrow> (Inr (g ps), t)) = snd x"
  by (auto split: prod.splits sum.splits)

lemma processIgnoreFile_from_disk:
  assumes "\<forall>g pats. parsedIgnoreFiles this g = Some pats \<longrightarrow>
             (\<exists>text. files e g = Some (File text) \<and> pats = parse_gitignore e text)"
  shows "fst (processIgnoreFile e this f)
           = fst (processIgnoreFile e (this\<lparr> excludeCache := Map.empty, parsedIgnoreFiles := Map.empty \<rparr>) f)"
    and "\<forall>g pats. parsedIgnoreFiles (snd (processIgnoreFile e this f)) g = Some pats \<longrightarrow>
             (\<exists>text. files e g = Some (File text) \<and> pats = parse_gitignore e text)"
proof -
  show "fst (processIgnoreFile e this f)
           = fst (processIgnoreFile e (this\<lparr> excludeCache := Map.empty, parsedIgnoreFiles := Map.empty \<rparr>) f)"
  proof (cases "parsedIgnoreFiles this f")
    case None
    then show ?thesis by (simp add: processIgnoreFile_def split: option.splits fsnode.splits)
  next
    case (Some pats)
    with assms obtain t where "files e f = Some (File t)" "pats = parse_gitignore e t"
      by blast
    with Some show ?thesis by (simp add: processIgnoreFile_def)
  qed
  show "\<forall>g pats. parsedIgnoreFiles (snd (processIgnoreFile e this f)) g = Some pats \<longrightarrow>
             (\<exists>text. files e g = Some (File text) \<and> pats = parse_gitignore e text)"
    using assms by (auto simp: processIgnoreFile_def split: option.splits fsnode.splits if_splits)
qed

lemma shouldBeExcluded_from_disk:
  assumes "\<forall>g pats. parsedIgnoreFiles this g = Some pats \<longrightarrow>
             (\<exists>text. files e g = Some (File text) \<and> pats = parse_gitignore e text)"
  shows "fst (shouldBeExcluded e this p root)
           = fst (shouldBeExcluded e (this\<lparr> excludeCache := Map.empty, parsedIgnoreFiles := Map.empty \<rparr>) p root)"
    and "\<forall>g pats. parsedIgnoreFiles (snd (shouldBeExcluded e this p root)) g = Some pats \<longrightarrow>
             (\<exists>text. files e g = Some (File text) \<and> pats = parse_gitignore e text)"
proof -
  show "fst (shouldBeExcluded e this p root)
           = fst (shouldBeExcluded e (this\<lparr> excludeCache := Map.empty, parsedIgnoreFiles := Map.empty \<rparr>) p root)"
    unfolding shouldBeExcluded_def
    by (simp add: fst_snd_case_result processIgnoreFile_from_disk(1) [OF assms, symmetric]
             split: option.splits del: match_patterns.simps existing.simps)
  show "\<forall>g pats. parsedIgnoreFiles (snd (shouldBeExcluded e this p root)) g = Some pats \<longrightarrow>
             (\<exists>text. files e g = Some (File text) \<and> pats = parse_gitignore e text)"
    unfolding shouldBeExcluded_def
    using assms processIgnoreFile_from_disk(2) [OF assms]
    by (simp add: fst_snd_case_result split: option.splits del: existing.simps)
qed

lemma shouldBeExcluded_same_configuration:
  "excludeConfigPath a = excludeConfigPath b \<Longrightarrow>
   defaultExcludePatterns a = defaultExcludePatterns b \<Longrightarrow>
   fst (shouldBeExcluded e (a\<lparr> excludeCache := Map.empty, parsedIgnoreFiles := Map.empty \<rparr>) p root)
     = fst (shouldBeExcluded e (b\<lparr> excludeCache := Map.empty, parsedIgnoreFiles := Map.empty \<rparr>) p root)"
  by (simp add: shouldBeExcluded_def processIgnoreFile_def fst_snd_case_result
           split: option.splits fsnode.splits del: match_patterns.simps existing.simps)

lemma excludes_configuration:
  "excludeConfigPath (snd (excludes e this q root)) = excludeConfigPath this"
  "defaultExcludePatterns (snd (excludes e this q root)) = defaultExcludePatterns this"
proof -
  have k: "excludeConfigPath (snd x) = excludeConfigPath this \<Longrightarrow>
        excludeConfigPath (snd (case x of
           (Inl err, this1) \<Rightarrow> (Inl err, this1)
         | (Inr v, this1) \<Rightarrow> (Inr v, this1\<lparr> excludeCache := (excludeCache this1)(p \<mapsto> v) \<rparr>)))
          = excludeConfigPath this" for x :: "(error + bool) \<times> FileMatcher" and p
    by (auto split: prod.splits sum.splits)
  have l: "defaultExcludePatterns (snd x) = defaultExcludePatterns this \<Longrightarrow>
        defaultExcludePatterns (snd (case x of
           (Inl err, this1) \<Rightarrow> (Inl err, this1)
         | (Inr v, this1) \<Rightarrow> (Inr v, this1\<lparr> excludeCache := (excludeCache this1)(p \<mapsto> v) \<rparr>)))
          = defaultExcludePatterns this" for x :: "(error + bool) \<times> FileMatcher" and p
    by (auto split: prod.splits sum.splits)
  show "excludeConfigPath (snd (excludes e this q root)) = excludeConfigPath this"
    unfolding excludes_def
    by (simp add: k shouldBeExcluded_keeps split: option.splits)
  show "defaultExcludePatterns (snd (excludes e this q root)) = defaultExcludePatterns this"
    unfolding excludes_def
    by (simp add: l shouldBeExcluded_keeps split: option.splits)
qed

lemma excludes_parsedIgnoreFiles:
  "parsedIgnoreFiles (snd (excludes e this q root)) = parsedIgnoreFiles this
   \<or> (\<exists>p. parsedIgnoreFiles (snd (excludes e this q root))
            = parsedIgnoreFiles (snd (shouldBeExcluded e this p root)))"
  by (auto simp: excludes_def split: option.splits prod.splits sum.splits) (metis snd_conv)+

lemma excludes_cache_entry:
  assumes "excludeCache (snd (excludes e this q root)) x = Some v"
  shows "excludeCache this x = Some v \<or> (x \<noteq> [] \<and> fst (shouldBeExcluded e this x root) = Inr v)"
proof (cases "\<exists>y. q = Some y \<and> y \<noteq> [] \<and> excludeCache this y = None")
  case False
  then show ?thesis using assms by (auto simp: excludes_def split: option.splits if_splits)
next
  case True
  then obtain y where y: "q = Some y" "y \<noteq> []" "excludeCache this y = None" by blast
  obtain r this1 where s: "shouldBeExcluded e this y root = (r, this1)"
    by (cases "shouldBeExcluded e this y root") auto
  have k: "excludeCache this1 = excludeCache this"
    using shouldBeExcluded_keeps(1) [of e this y root] s by simp
  show ?thesis
  proof (cases r)
    case (Inl err)
    then show ?thesis using assms k by (simp add: excludes_def y s)
  next
    case (Inr w)
    then show ?thesis using assms k y(2) by (simp add: excludes_def y s split: if_splits)
  qed
qed

lemma excludes_invariant:
  assumes disk: "\<forall>g pats. parsedIgnoreFiles this g = Some pats \<longrightarrow>
             (\<exists>text. files e g = Some (File text) \<and> pats = parse_gitignore e text)"
      and cache: "\<forall>x v. excludeCache this x = Some v \<longrightarrow>
             fst (shouldBeExcluded e (this\<lparr> excludeCache := Map.empty, parsedIgnoreFiles := Map.empty \<rparr>) x root)
               = Inr v"
  shows "\<forall>g pats. parsedIgnoreFiles (snd (excludes e this fsPath root)) g = Some pats \<longrightarrow>
             (\<exists>text. files e g = Some (File text) \<and> pats = parse_gitignore e text)"
    and "\<forall>x v. excludeCache (snd (excludes e this fsPath root)) x = Some v \<longrightarrow>
             fst (shouldBeExcluded e
                    ((snd (excludes e this fsPath root))\<lparr> excludeCache := Map.empty,
                                                         parsedIgnoreFiles := Map.empty \<rparr>) x root)
               = Inr v"
proof -
  let ?next = "snd (excludes e this fsPath root)"
  show "\<forall>g pats. parsedIgnoreFiles ?next g = Some pats \<longrightarrow>
             (\<exists>text. files e g = Some (File text) \<and> pats = parse_gitignore e text)"
    using excludes_parsedIgnoreFiles [of e this fsPath root] disk
          shouldBeExcluded_from_disk(2) [OF disk]
    by metis
  have b: "fst (shouldBeExcluded e (?next\<lparr> excludeCache := Map.empty, parsedIgnoreFiles := Map.empty \<rparr>) x root)
               = Inr v" if h: "excludeCache ?next x = Some v" for x v
  proof -
    have same: "fst (shouldBeExcluded e (?next\<lparr> excludeCache := Map.empty, parsedIgnoreFiles := Map.empty \<rparr>) x root)
        = fst (shouldBeExcluded e (this\<lparr> excludeCache := Map.empty, parsedIgnoreFiles := Map.empty \<rparr>) x root)"
      by (rule shouldBeExcluded_same_configuration) (rule excludes_configuration)+
    from excludes_cache_entry [OF h]
    have "fst (shouldBeExcluded e (this\<lparr> excludeCache := Map.empty, parsedIgnoreFiles := Map.empty \<rparr>) x root)
            = Inr v"
      using cache shouldBeExcluded_from_disk(1) [OF disk] by metis
    with same show ?thesis by simp
  qed
  then show "\<forall>x v. excludeCache ?next x = Some v \<longrightarrow>
             fst (shouldBeExcluded e (?next\<lparr> excludeCache := Map.empty, parsedIgnoreFiles := Map.empty \<rparr>) x root)
               = Inr v"
    by blast
qed

lemma matcher_session_invariant:
  assumes "\<forall>g pats. parsedIgnoreFiles this g = Some pats \<longrightarrow>
             (\<exists>text. files e g = Some (File text) \<and> pats = parse_gitignore e text)"
      and "\<forall>x v. excludeCache this x = Some v \<longrightarrow>
             fst (shouldBeExcluded e (this\<lparr> excludeCache := Map.empty, parsedIgnoreFiles := Map.empty \<rparr>) x root)
               = Inr v"
  shows "(\<forall>g pats. parsedIgnoreFiles (matcher_session e root calls this) g = Some pats \<longrightarrow>
             (\<exists>text. files e g = Some (File text) \<and> pats = parse_gitignore e text))
       \<and> (\<forall>x v. excludeCache (matcher_session e root calls this) x = Some v \<longrightarrow>
             fst (shouldBeExcluded e
                    ((matcher_session e root calls this)\<lparr> excludeCache := Map.empty,
                                                          parsedIgnoreFiles := Map.empty \<rparr>) x root)
               = Inr v)"
  using assms
proof (induction calls arbitrary: this)
  case Nil
  then show ?case by simp
next
  case (Cons call calls)
  show ?case
  proof (cases call)
    case (Configure path exclude)
    show ?thesis unfolding Configure matcher_session.simps
      by (rule Cons.IH) (use Cons.prems(1) in \<open>simp_all add: configure_matcher_def\<close>)
  next
    case Clear
    show ?thesis unfolding Clear matcher_session.simps
      by (rule Cons.IH) (use Cons.prems(1) in \<open>simp_all add: clear_matcher_def\<close>)
  next
    case (Excludes fsPath)
    show ?thesis unfolding Excludes matcher_session.simps
      by (rule Cons.IH) (rule excludes_invariant [OF Cons.prems])+
  qed
qed

text \<open>
  In a session of the server, and as long as the files do not change, the caches never
  change an answer: what \<open>excludes\<close> reports for a non-empty path is what it would report
  with both caches empty.
\<close>

lemma excludes_in_session:
  assumes "p \<noteq> []"
  shows "fst (excludes e (matcher_session e root calls new_FileMatcher) (Some p) root)
           = fst (excludes e ((matcher_session e root calls new_FileMatcher)
                                \<lparr> excludeCache := Map.empty, parsedIgnoreFiles := Map.empty \<rparr>)
                    (Some p) root)"
proof -
  let ?m = "matcher_session e root calls new_FileMatcher"
  let ?fresh = "?m\<lparr> excludeCache := Map.empty, parsedIgnoreFiles := Map.empty \<rparr>"
  have inv: "(\<forall>g pats. parsedIgnoreFiles ?m g = Some pats \<longrightarrow>
             (\<exists>text. files e g = Some (File text) \<and> pats = parse_gitignore e text))
       \<and> (\<forall>x v. excludeCache ?m x = Some v \<longrightarrow>
             fst (shouldBeExcluded e ?fresh x root) = Inr v)"
    by (rule matcher_session_invariant) (simp_all add: new_FileMatcher_def)
  have r: "fst (excludes e ?fresh (Some p) root) = fst (shouldBeExcluded e ?fresh p root)"
    by (rule excludes_fresh [OF assms]) simp
  show ?thesis
  proof (cases "excludeCache ?m p")
    case None
    have "fst (excludes e ?m (Some p) root) = fst (shouldBeExcluded e ?m p root)"
      by (rule excludes_fresh [OF assms None])
    also have "\<dots> = fst (shouldBeExcluded e ?fresh p root)"
      by (rule shouldBeExcluded_from_disk(1)) (rule inv [THEN conjunct1])
    finally show ?thesis using r by simp
  next
    case (Some v)
    have "fst (excludes e ?m (Some p) root) = Inr v"
      using excludes_cached [OF Some assms] by simp
    moreover have "fst (shouldBeExcluded e ?fresh p root) = Inr v"
      using inv Some by blast
    ultimately show ?thesis using r by simp
  qed
qed

text \<open>
  Claim C7. \<open>match\<close> is true when and only when some pattern of the set matches the
  relative path; the relative path is what is left of the path after a truthy root that
  is a prefix of it and after one slash, if one follows, and the whole path when the
  root is no prefix, is empty or is missing. What \<open>excludes\<close> reports for a non-empty path
  is the verdict it stored for the path, if it has one, and else this verdict for the
  patterns and the root it chooses: the patterns that parse-gitignore returns for the
  configured ignore file, with the given root; else the patterns it returns for the
  nearest \<open>.jslintignore\<close>, with the folder of that file; else the static patterns, with
  the given root. In a session of the server in
  which the files stay as they are, with its one root, the two caches change no answer:
  \<open>excludes\<close> reports what it reports with both caches empty.
\<close>

theorem match_spec:
  "(match_patterns e (Some patterns) p root
       \<longleftrightarrow> (\<exists>pattern \<in> set patterns. minimatch e (relativeTo p root) pattern))
   \<and> \<not> match_patterns e None p root
   \<and> (r \<noteq> [] \<longrightarrow> relativeTo (r @ rest) (Some r)
         = (case rest of [] \<Rightarrow> [] | c # cs \<Rightarrow> if c = CHR ''/'' then cs else rest))
   \<and> (\<not> prefix r p \<longrightarrow> relativeTo p (Some r) = p)
   \<and> relativeTo p (Some []) = p \<and> relativeTo p None = p
   \<and> (p \<noteq> [] \<longrightarrow>
        (\<forall>v. excludeCache this p = Some v \<longrightarrow> fst (excludes e this (Some p) root) = Inr v)
      \<and> (\<forall>cp found this1.
            excludeCache this p = None \<and> existing e (excludeConfigPath this) = Some cp
            \<and> processIgnoreFile e this cp = (Inr found, this1) \<longrightarrow>
            fst (excludes e this (Some p) root) = Inr (match_patterns e (Some found) p root))
      \<and> (\<forall>f found this1.
            excludeCache this p = None \<and> existing e (excludeConfigPath this) = None
            \<and> locateFile e p JSLINTIGNORE = Some f
            \<and> processIgnoreFile e this f = (Inr found, this1) \<longrightarrow>
            fst (excludes e this (Some p) root)
              = Inr (match_patterns e (Some found) p (Some (folderOf f))))
      \<and> (excludeCache this p = None \<and> existing e (excludeConfigPath this) = None
            \<and> locateFile e p JSLINTIGNORE = None \<longrightarrow>
            fst (excludes e this (Some p) root)
              = Inr (match_patterns e (defaultExcludePatterns this) p root)))
   \<and> (p \<noteq> [] \<longrightarrow>
        (\<forall>calls.
           fst (excludes e (matcher_session e root calls new_FileMatcher) (Some p) root)
             = fst (excludes e ((matcher_session e root calls new_FileMatcher)
                                  \<lparr> excludeCache := Map.empty, parsedIgnoreFiles := Map.empty \<rparr>)
                      (Some p) root)))"
proof -
  have m: "match_patterns e (Some patterns) p root
       \<longleftrightarrow> (\<exists>pattern \<in> set patterns. minimatch e (relativeTo p root) pattern)"
    by (simp add: list_ex_iff)
  have n: "\<not> match_patterns e None p root" by simp
  have r1: "r \<noteq> [] \<longrightarrow> relativeTo (r @ rest) (Some r)
         = (case rest of [] \<Rightarrow> [] | c # cs \<Rightarrow> if c = CHR ''/'' then cs else rest)"
    using relativeTo_prefix [of r rest] by blast
  have r2: "\<not> prefix r p \<longrightarrow> relativeTo p (Some r) = p" by simp
  have r3: "relativeTo p (Some []) = p" by simp
  have r4: "relativeTo p None = p" by simp
  have ex: "p \<noteq> [] \<longrightarrow>
        (\<forall>v. excludeCache this p = Some v \<longrightarrow> fst (excludes e this (Some p) root) = Inr v)
      \<and> (\<forall>cp found this1.
            excludeCache this p = None \<and> existing e (excludeConfigPath this) = Some cp
            \<and> processIgnoreFile e this cp = (Inr found, this1) \<longrightarrow>
            fst (excludes e this (Some p) root) = Inr (match_patterns e (Some found) p root))
      \<and> (\<forall>f found this1.
            excludeCache this p = None \<and> existing e (excludeConfigPath this) = None
            \<and> locateFile e p JSLINTIGNORE = Some f
            \<and> processIgnoreFile e this f = (Inr found, this1) \<longrightarrow>
            fst (excludes e this (Some p) root)
              = Inr (match_patterns e (Some found) p (Some (folderOf f))))
      \<and> (excludeCache this p = None \<and> existing e (excludeConfigPath this) = None
            \<and> locateFile e p JSLINTIGNORE = None \<longrightarrow>
            fst (excludes e this (Some p) root)
              = Inr (match_patterns e (defaultExcludePatterns this) p root))"
    by (auto simp: excludes_cached excludes_fresh shouldBeExcluded_def
             simp del: match_patterns.simps existing.simps)
  have ses: "p \<noteq> [] \<longrightarrow>
        (\<forall>calls.
           fst (excludes e (matcher_session e root calls new_FileMatcher) (Some p) root)
             = fst (excludes e ((matcher_session e root calls new_FileMatcher)
                                  \<lparr> excludeCache := Map.empty, parsedIgnoreFiles := Map.empty \<rparr>)
                      (Some p) root))"
    using excludes_in_session [of p e root] by blast
  from m n r1 r2 r3 r4 ex ses show ?thesis by (intro conjI)
qed

theorem match_spec_witness:
  "relativeTo ''/proj/build/out.js'' (Some ''/proj'') = ''build/out.js''
   \<and> fst (excludes empty_env proj_matcher (Some ''/proj/build/out.js'') (Some ''/proj'')) = Inr True
   \<and> fst (excludes empty_env proj_matcher (Some ''/proj/src/out.js'') (Some ''/proj'')) = Inr False
   \<and> fst (excludes ignore_env new_FileMatcher (Some ''/proj/build/out.js'') (Some ''/proj'')) = Inr True
   \<and> fst (excludes ignore_env new_FileMatcher (Some ''/proj/src/out.js'') (Some ''/proj'')) = Inr False
   \<and> fst (excludes elsewhere_env elsewhere_matcher (Some ''/proj/build/out.js'') (Some ''/proj''))
       = Inr True
   \<and> fst (excludes ignore_env
             (matcher_session ignore_env (Some ''/proj'') [Excludes (Some ''/proj/build/out.js'')]
                new_FileMatcher)
             (Some ''/proj/build/out.js'') (Some ''/proj'')) = Inr True
   \<and> fst (excludes ignore_env
             (matcher_session ignore_env (Some ''/proj'') [Excludes (Some ''/proj/build/out.js'')]
                new_FileMatcher)
             (Some ''/proj/build/out.js'') (Some ''/proj''))
       = fst (excludes ignore_env
               ((matcher_session ignore_env (Some ''/proj'') [Excludes (Some ''/proj/build/out.js'')]
                   new_FileMatcher)\<lparr> excludeCache := Map.empty, parsedIgnoreFiles := Map.empty \<rparr>)
               (Some ''/proj/build/out.js'') (Some ''/proj''))"
proof -
  let ?b = "''/proj/build/out.js''" and ?s = "''/proj/src/out.js''"
  let ?pats = "[''build/**'']"
  have nb: "?b \<noteq> []" and ns: "?s \<noteq> []" by simp_all
  note B = match_spec [where e = empty_env and patterns = ?pats and p = ?b
                         and root = "Some ''/proj''" and r = "''/proj''"
                         and rest = "''/build/out.js''" and this = proj_matcher]
  note S = match_spec [where e = empty_env and patterns = ?pats and p = ?s
                         and root = "Some ''/proj''" and r = "''/proj''"
                         and rest = "''/src/out.js''" and this = proj_matcher]
  have rel: "relativeTo (''/proj'' @ ''/build/out.js'') (Some ''/proj'') = ''build/out.js''"
    using B [THEN conjunct2, THEN conjunct2, THEN conjunct1] by simp
  have pats: "defaultExcludePatterns proj_matcher = Some ?pats"
    by (simp add: proj_matcher_def configure_matcher_def)
  have mb: "match_patterns empty_env (Some ?pats) ?b (Some ''/proj'')
              \<longleftrightarrow> (\<exists>pattern \<in> set ?pats. minimatch empty_env (relativeTo ?b (Some ''/proj'')) pattern)"
    by (rule B [THEN conjunct1])
  have ms: "match_patterns empty_env (Some ?pats) ?s (Some ''/proj'')
              \<longleftrightarrow> (\<exists>pattern \<in> set ?pats. minimatch empty_env (relativeTo ?s (Some ''/proj'')) pattern)"
    by (rule S [THEN conjunct1])
  have gb: "\<exists>pattern \<in> set ?pats. minimatch empty_env (relativeTo ?b (Some ''/proj'')) pattern"
    by code_simp
  have gs: "\<not> (\<exists>pattern \<in> set ?pats. minimatch empty_env (relativeTo ?s (Some ''/proj'')) pattern)"
    by code_simp
  have hb: "excludeCache proj_matcher ?b = None
            \<and> existing empty_env (excludeConfigPath proj_matcher) = None
            \<and> locateFile empty_env ?b JSLINTIGNORE = None"
    by code_simp
  have hs: "excludeCache proj_matcher ?s = None
            \<and> existing empty_env (excludeConfigPath proj_matcher) = None
            \<and> locateFile empty_env ?s JSLINTIGNORE = None"
    by code_simp
  have b1: "fst (excludes empty_env proj_matcher (Some ?b) (Some ''/proj''))
              = Inr (match_patterns empty_env (defaultExcludePatterns proj_matcher) ?b (Some ''/proj''))"
    by (rule B [THEN conjunct2, THEN conjunct2, THEN conjunct2, THEN conjunct2, THEN conjunct2,
                THEN conjunct2, THEN conjunct1, THEN mp, OF nb,
                THEN conjunct2, THEN conjunct2, THEN conjunct2, THEN mp, OF hb])
  have s1: "fst (excludes empty_env proj_matcher (Some ?s) (Some ''/proj''))
              = Inr (match_patterns empty_env (defaultExcludePatterns proj_matcher) ?s (Some ''/proj''))"
    by (rule S [THEN conjunct2, THEN conjunct2, THEN conjunct2, THEN conjunct2, THEN conjunct2,
                THEN conjunct2, THEN conjunct1, THEN mp, OF ns,
                THEN conjunct2, THEN conjunct2, THEN conjunct2, THEN mp, OF hs])
  have static_b: "fst (excludes empty_env proj_matcher (Some ?b) (Some ''/proj'')) = Inr True"
    unfolding b1 pats mb using gb by simp
  have static_s: "fst (excludes empty_env proj_matcher (Some ?s) (Some ''/proj'')) = Inr False"
    unfolding s1 pats ms using gs by simp
  \<comment> \<open>the nearest ignore file\<close>
  let ?f = "''/proj/.jslintignore''"
  note NB = match_spec [where e = ignore_env and patterns = ?pats and p = ?b
                         and root = "Some ''/proj''" and r = "''/proj''"
                         and rest = "''/build/out.js''" and this = new_FileMatcher]
  note NS = match_spec [where e = ignore_env and patterns = ?pats and p = ?s
                         and root = "Some ''/proj''" and r = "''/proj''"
                         and rest = "''/src/out.js''" and this = new_FileMatcher]
  have lib: "fst (processIgnoreFile ignore_env new_FileMatcher ?f) = Inr ?pats"
    by code_simp
  have libp: "processIgnoreFile ignore_env new_FileMatcher ?f
                = (Inr ?pats, snd (processIgnoreFile ignore_env new_FileMatcher ?f))"
    using lib by (simp add: prod_eq_iff)
  have c0: "excludeCache new_FileMatcher ?b = None \<and> excludeCache new_FileMatcher ?s = None
            \<and> existing ignore_env (excludeConfigPath new_FileMatcher) = None"
    by (simp add: new_FileMatcher_def)
  have locb: "locateFile ignore_env ?b JSLINTIGNORE = Some ?f" by code_simp
  have locs: "locateFile ignore_env ?s JSLINTIGNORE = Some ?f" by code_simp
  have hnb: "excludeCache new_FileMatcher ?b = None
             \<and> existing ignore_env (excludeConfigPath new_FileMatcher) = None
             \<and> locateFile ignore_env ?b JSLINTIGNORE = Some ?f
             \<and> processIgnoreFile ignore_env new_FileMatcher ?f
                  = (Inr ?pats, snd (processIgnoreFile ignore_env new_FileMatcher ?f))"
    using c0 locb libp by (intro conjI) (elim conjE, assumption)+
  have hns: "excludeCache new_FileMatcher ?s = None
             \<and> existing ignore_env (excludeConfigPath new_FileMatcher) = None
             \<and> locateFile ignore_env ?s JSLINTIGNORE = Some ?f
             \<and> processIgnoreFile ignore_env new_FileMatcher ?f
                  = (Inr ?pats, snd (processIgnoreFile ignore_env new_FileMatcher ?f))"
    using c0 locs libp by (intro conjI) (elim conjE, assumption)+
  have nb1: "fst (excludes ignore_env new_FileMatcher (Some ?b) (Some ''/proj''))
               = Inr (match_patterns ignore_env (Some ?pats) ?b (Some (folderOf ?f)))"
    by (rule NB [THEN conjunct2, THEN conjunct2, THEN conjunct2, THEN conjunct2, THEN conjunct2,
                 THEN conjunct2, THEN conjunct1, THEN mp, OF nb,
                 THEN conjunct2, THEN conjunct2, THEN conjunct1,
                 THEN spec, THEN spec, THEN spec, THEN mp, OF hnb])
  have ns1: "fst (excludes ignore_env new_FileMatcher (Some ?s) (Some ''/proj''))
               = Inr (match_patterns ignore_env (Some ?pats) ?s (Some (folderOf ?f)))"
    by (rule NS [THEN conjunct2, THEN conjunct2, THEN conjunct2, THEN conjunct2, THEN conjunct2,
                 THEN conjunct2, THEN conjunct1, THEN mp, OF ns,
                 THEN conjunct2, THEN conjunct2, THEN conjunct1,
                 THEN spec, THEN spec, THEN spec, THEN mp, OF hns])
  have nmb: "match_patterns ignore_env (Some ?pats) ?b (Some (folderOf ?f))" by code_simp
  have nms: "\<not> match_patterns ignore_env (Some ?pats) ?s (Some (folderOf ?f))" by code_simp
  have near_b: "fst (excludes ignore_env new_FileMatcher (Some ?b) (Some ''/proj'')) = Inr True"
    unfolding nb1 using nmb by simp
  have near_s: "fst (excludes ignore_env new_FileMatcher (Some ?s) (Some ''/proj'')) = Inr False"
    unfolding ns1 using nms by simp
  \<comment> \<open>the configured ignore file\<close>
  let ?c = "''/etc/lintignore''"
  note CB = match_spec [where e = elsewhere_env and patterns = ?pats and p = ?b
                         and root = "Some ''/proj''" and r = "''/proj''"
                         and rest = "''/build/out.js''" and this = elsewhere_matcher]
  have clib: "fst (processIgnoreFile elsewhere_env elsewhere_matcher ?c) = Inr ?pats"
    by code_simp
  have hcb: "excludeCache elsewhere_matcher ?b = None
             \<and> existing elsewhere_env (excludeConfigPath elsewhere_matcher) = Some ?c
             \<and> processIgnoreFile elsewhere_env elsewhere_matcher ?c
                  = (Inr ?pats, snd (processIgnoreFile elsewhere_env elsewhere_matcher ?c))"
  proof (intro conjI)
    show "excludeCache elsewhere_matcher ?b = None"
      by (simp add: elsewhere_matcher_def configure_matcher_def)
    show "existing elsewhere_env (excludeConfigPath elsewhere_matcher) = Some ?c"
      by code_simp
    show "processIgnoreFile elsewhere_env elsewhere_matcher ?c
            = (Inr ?pats, snd (processIgnoreFile elsewhere_env elsewhere_matcher ?c))"
      using clib by (simp add: prod_eq_iff)
  qed
  have cb1: "fst (excludes elsewhere_env elsewhere_matcher (Some ?b) (Some ''/proj''))
               = Inr (match_patterns elsewhere_env (Some ?pats) ?b (Some ''/proj''))"
    by (rule CB [THEN conjunct2, THEN conjunct2, THEN conjunct2, THEN conjunct2, THEN conjunct2,
                 THEN conjunct2, THEN conjunct1, THEN mp, OF nb,
                 THEN conjunct2, THEN conjunct1,
                 THEN spec, THEN spec, THEN spec, THEN mp, OF hcb])
  have cmb: "match_patterns elsewhere_env (Some ?pats) ?b (Some ''/proj'')" by code_simp
  have conf_b: "fst (excludes elsewhere_env elsewhere_matcher (Some ?b) (Some ''/proj'')) = Inr True"
    unfolding cb1 using cmb by simp
  \<comment> \<open>a second call in the same session\<close>
  let ?later = "matcher_session ignore_env (Some ''/proj'') [Excludes (Some ?b)] new_FileMatcher"
  note LB = match_spec [where e = ignore_env and patterns = ?pats and p = ?b
                         and root = "Some ''/proj''" and r = "''/proj''"
                         and rest = "''/build/out.js''" and this = ?later]
  have stored: "excludeCache ?later ?b = Some True" by code_simp
  have again: "fst (excludes ignore_env ?later (Some ?b) (Some ''/proj'')) = Inr True"
    by (rule LB [THEN conjunct2, THEN conjunct2, THEN conjunct2, THEN conjunct2, THEN conjunct2,
                 THEN conjunct2, THEN conjunct1, THEN mp, OF nb,
                 THEN conjunct1, THEN spec, THEN mp, OF stored])
  have same: "fst (excludes ignore_env ?later (Some ?b) (Some ''/proj''))
                = fst (excludes ignore_env
                        (?later\<lparr> excludeCache := Map.empty, parsedIgnoreFiles := Map.empty \<rparr>)
                        (Some ?b) (Some ''/proj''))"
    by (rule LB [THEN conjunct2, THEN conjunct2, THEN conjunct2, THEN conjunct2, THEN conjunct2,
                 THEN conjunct2, THEN conjunct2,
                 THEN mp, OF nb, THEN spec])
  have rel': "relativeTo ''/proj/build/out.js'' (Some ''/proj'') = ''build/out.js''"
    using rel by simp
  from rel' static_b static_s near_b near_s conf_b again same
  show ?thesis by (intro conjI)
qed

subsection \<open>The options cache\<close>

lemma readHomeOptions_cong:
  "jslintOptions a = jslintOptions b \<Longrightarrow> readHomeOptions e a conn = readHomeOptions e b conn"
  by (simp add: readHomeOptions_def Let_def split: option.splits)

lemma readNearestConf_cong:
  "jslintOptions a = jslintOptions b \<Longrightarrow> readNearestConf e a p conn = readNearestConf e b p conn"
  by (simp add: readNearestConf_def readHomeOptions_cong [of a b] split: option.splits)

lemma readOptions_cong:
  "configPath a = configPath b \<Longrightarrow> jslintOptions a = jslintOptions b \<Longrightarrow>
   readOptions e a p conn = readOptions e b p conn"
  by (simp add: readOptions_def readNearestConf_cong [of a b] readHomeOptions_cong [of a b]
           split: option.splits prod.splits)

lemma getOptions_empty_cache:
  "optionsCache this p = None \<Longrightarrow>
   getOptions e this p conn =
     (case readOptions e this p conn of
        (Inl err, conn1) \<Rightarrow> (Inl err, this, conn1)
      | (Inr r, conn1) \<Rightarrow> (Inr r, this\<lparr> optionsCache := (optionsCache this)(p \<mapsto> r) \<rparr>, conn1))"
  by (simp add: getOptions_def)

lemma getOptions_falsy_cache:
  "optionsCache this p = Some r \<Longrightarrow> \<not> truthy r \<Longrightarrow>
   getOptions e this p conn =
     (case readOptions e this p conn of
        (Inl err, conn1) \<Rightarrow> (Inl err, this, conn1)
      | (Inr r, conn1) \<Rightarrow> (Inr r, this\<lparr> optionsCache := (optionsCache this)(p \<mapsto> r) \<rparr>, conn1))"
  by (simp add: getOptions_def)

lemma fst_getOptions_read:
  "optionsCache this p = None \<or> (\<exists>r. optionsCache this p = Some r \<and> \<not> truthy r) \<Longrightarrow>
   fst (getOptions e this p conn) = fst (readOptions e this p conn)"
  by (auto simp: getOptions_def split: prod.splits sum.splits)

lemma getOptions_truthy_cache:
  "optionsCache this p = Some r \<Longrightarrow> truthy r \<Longrightarrow> getOptions e this p conn = (Inr r, this, conn)"
  by (simp add: getOptions_def)

lemma getOptions_stores:
  "getOptions e this p conn = (Inr r, this1, conn1) \<Longrightarrow> truthy r \<Longrightarrow> optionsCache this1 p = Some r"
  by (auto simp: getOptions_def Let_def split: option.splits if_splits prod.splits sum.splits)

lemma getOptions_stores_any:
  "getOptions e this p conn = (Inr r, this1, conn1) \<Longrightarrow> \<not> truthy r \<Longrightarrow> optionsCache this1 p = Some r"
  by (auto simp: getOptions_def Let_def split: option.splits if_splits prod.splits sum.splits)

lemma getOptions_keeps:
  "optionsCache this p = Some r \<Longrightarrow> truthy r \<Longrightarrow>
   optionsCache (fst (snd (getOptions e this q conn))) p = Some r"
  by (cases "q = p")
     (auto simp: getOptions_def Let_def split: option.splits if_splits prod.splits sum.splits)

lemma getOptions_calls_keeps:
  "optionsCache (fst sc) p = Some r \<Longrightarrow> truthy r \<Longrightarrow>
   optionsCache (fst (getOptions_calls calls sc)) p = Some r"
proof (induction calls arbitrary: sc)
  case Nil
  then show ?case by simp
next
  case (Cons call calls)
  obtain e q where call: "call = (e, q)" by (cases call) auto
  show ?case unfolding call getOptions_calls.simps
    by (rule Cons.IH) (use getOptions_keeps [OF Cons.prems] in simp, rule Cons.prems(2))
qed

text \<open>
  Claim C8, as the code has it. Within one configuration epoch, once \<open>getOptions\<close> has
  returned a truthy value \<open>r\<close> for a path (any object, the empty object too), every
  later call for that path returns \<open>r\<close> and changes neither the resolver nor the
  connection, in any world \<open>e'\<close> (so no file is read and no resolution runs), after any
  run of other \<open>getOptions\<close> calls. A falsy result (\<open>undefined\<close>, \<open>null\<close>, \<open>false\<close>, 0, the
  empty string) is stored but never served: the next call runs \<open>readOptions\<close> again.
\<close>

theorem getOptions_memoized_truthy:
  assumes "getOptions e this p conn = (Inr r, this1, conn1)"
  shows "(truthy r \<longrightarrow>
            getOptions e' (fst (getOptions_calls calls (this1, conn1))) p conn'
              = (Inr r, fst (getOptions_calls calls (this1, conn1)), conn'))
       \<and> (\<not> truthy r \<longrightarrow>
            fst (getOptions e' this1 p conn') = fst (readOptions e' this1 p conn'))"
proof (intro conjI impI)
  assume t: "truthy r"
  have "optionsCache (fst (this1, conn1)) p = Some r"
    using getOptions_stores [OF assms t] by simp
  from getOptions_calls_keeps [OF this t]
  show "getOptions e' (fst (getOptions_calls calls (this1, conn1))) p conn'
              = (Inr r, fst (getOptions_calls calls (this1, conn1)), conn')"
    by (rule getOptions_truthy_cache) (rule t)
next
  assume f: "\<not> truthy r"
  show "fst (getOptions e' this1 p conn') = fst (readOptions e' this1 p conn')"
    by (rule fst_getOptions_read) (use getOptions_stores_any [OF assms f] f in blast)
qed

theorem getOptions_memoized_truthy_witness:
  "fst (getOptions conf_env new_OptionsResolver ''/proj/a.js'' no_messages) = Inr (Some (JObj []))
   \<and> fst (getOptions empty_env
          (fst (getOptions_calls [(empty_env, ''/proj/b.js'')]
             (snd (getOptions conf_env new_OptionsResolver ''/proj/a.js'' no_messages))))
          ''/proj/a.js'' no_messages) = Inr (Some (JObj []))
   \<and> fst (getOptions empty_env new_OptionsResolver ''/proj/a.js'' no_messages) = Inr (Some JNull)
   \<and> fst (getOptions conf_env
          (fst (snd (getOptions empty_env new_OptionsResolver ''/proj/a.js'' no_messages)))
          ''/proj/a.js'' no_messages)
       = fst (readOptions conf_env
          (fst (snd (getOptions empty_env new_OptionsResolver ''/proj/a.js'' no_messages)))
          ''/proj/a.js'' no_messages)"
proof -
  let ?first = "getOptions conf_env new_OptionsResolver ''/proj/a.js'' no_messages"
  let ?none = "getOptions empty_env new_OptionsResolver ''/proj/a.js'' no_messages"
  have v: "fst ?first = Inr (Some (JObj []))" by code_simp
  have h: "?first = (Inr (Some (JObj [])), fst (snd ?first), snd (snd ?first))"
    using v by (simp add: prod_eq_iff)
  have t: "truthy (Some (JObj []))" by simp
  have n: "fst ?none = Inr (Some JNull)" by code_simp
  have hn: "?none = (Inr (Some JNull), fst (snd ?none), snd (snd ?none))"
    using n by (simp add: prod_eq_iff)
  have f: "\<not> truthy (Some JNull)" by simp
  from getOptions_memoized_truthy [OF h, of empty_env "[(empty_env, ''/proj/b.js'')]" no_messages] t
  have a: "fst (getOptions empty_env
          (fst (getOptions_calls [(empty_env, ''/proj/b.js'')] (snd ?first)))
          ''/proj/a.js'' no_messages) = Inr (Some (JObj []))"
    by simp
  from getOptions_memoized_truthy [OF hn, of conf_env "[]" no_messages] f
  have b: "fst (getOptions conf_env (fst (snd ?none)) ''/proj/a.js'' no_messages)
       = fst (readOptions conf_env (fst (snd ?none)) ''/proj/a.js'' no_messages)"
    by blast
  from v a n b show ?thesis by blast
qed

text \<open>
  Claim C8 as stated fails for a falsy result. With no configuration anywhere the first
  call returns the inline options, which are \<open>null\<close> in a fresh resolver and \<open>undefined\<close>
  after a \<open>configure\<close> without options; once a \<open>jslint.conf\<close> has appeared, the second
  call for the same path, in the same epoch, reads it and returns its content.
\<close>

theorem getOptions_undefined_not_memoized:
  "fst (getOptions empty_env new_OptionsResolver ''/proj/a.js'' no_messages) = Inr (Some JNull)
   \<and> fst (getOptions conf_env
          (fst (snd (getOptions empty_env new_OptionsResolver ''/proj/a.js'' no_messages)))
          ''/proj/a.js''
          (snd (snd (getOptions empty_env new_OptionsResolver ''/proj/a.js'' no_messages))))
       = Inr (Some (JObj []))
   \<and> fst (getOptions empty_env (configure None None new_OptionsResolver) ''/proj/a.js''
          no_messages) = Inr None
   \<and> fst (getOptions conf_env
          (fst (snd (getOptions empty_env (configure None None new_OptionsResolver)
                       ''/proj/a.js'' no_messages)))
          ''/proj/a.js''
          (snd (snd (getOptions empty_env (configure None None new_OptionsResolver)
                       ''/proj/a.js'' no_messages))))
       = Inr (Some (JObj []))"
  by code_simp

text \<open>
  What holds of claim C2: \<open>configure\<close> and \<open>clear\<close>, of the resolver and of the matcher,
  leave an empty cache whatever it held, and the object after the call is the same
  whatever the cache held. The first \<open>getOptions\<close> after either returns what \<open>readOptions\<close>
  computes now, from the current world and the current inputs.
\<close>

lemma caches_emptied:
  "optionsCache (configure path opts this) = Map.empty
   \<and> optionsCache (clear this) = Map.empty
   \<and> excludeCache (configure_matcher xpath exclude that) = Map.empty
   \<and> excludeCache (clear_matcher that) = Map.empty
   \<and> configure path opts (this\<lparr> optionsCache := anyCache \<rparr>) = configure path opts this
   \<and> clear (this\<lparr> optionsCache := anyCache \<rparr>) = clear this
   \<and> configure_matcher xpath exclude (that\<lparr> excludeCache := anyVerdicts \<rparr>)
        = configure_matcher xpath exclude that
   \<and> clear_matcher (that\<lparr> excludeCache := anyVerdicts \<rparr>) = clear_matcher that
   \<and> fst (getOptions e (configure path opts this) fsPath conn)
        = fst (readOptions e (this\<lparr> optionsCache := anyCache, configPath := path, jslintOptions := opts \<rparr>) fsPath conn)
   \<and> fst (getOptions e (clear this) fsPath conn)
        = fst (readOptions e (this\<lparr> optionsCache := anyCache \<rparr>) fsPath conn)"
proof -
  have a: "fst (getOptions e (configure path opts this) fsPath conn)
        = fst (readOptions e (configure path opts this) fsPath conn)"
    by (rule fst_getOptions_read) (simp add: configure_def)
  have a': "readOptions e (configure path opts this) fsPath conn
      = readOptions e (this\<lparr> optionsCache := anyCache, configPath := path, jslintOptions := opts \<rparr>) fsPath conn"
    by (rule readOptions_cong) (simp_all add: configure_def)
  have b: "fst (getOptions e (clear this) fsPath conn) = fst (readOptions e (clear this) fsPath conn)"
    by (rule fst_getOptions_read) (simp add: clear_def)
  have b': "readOptions e (clear this) fsPath conn = readOptions e (this\<lparr> optionsCache := anyCache \<rparr>) fsPath conn"
    by (rule readOptions_cong) (simp_all add: clear_def)
  show ?thesis
    unfolding a a' b b'
    by (simp add: configure_def clear_def configure_matcher_def clear_matcher_def)
qed

text \<open>
  What \<open>clear\<close> and \<open>configure\<close> of the matcher do not reach is the cache of
  parse-gitignore: the patterns of an ignore file that was read once are kept.
\<close>

lemma parsedIgnoreFiles_kept:
  "parsedIgnoreFiles (clear_matcher that) = parsedIgnoreFiles that
   \<and> parsedIgnoreFiles (configure_matcher xpath exclude that) = parsedIgnoreFiles that"
  by (simp add: clear_matcher_def configure_matcher_def)

text \<open>
  Claim C2. After \<open>configure\<close> or \<open>clear\<close> no lookup is to return what was cached before, and
  the first \<open>excludes\<close> is to compute its verdict from the current inputs, reading the
  disk again. The code fails it for the exclusion cache. The ignore file of \<open>/proj\<close> says
  \<open>build/**\<close> when \<open>/proj/build/out.js\<close> is first asked for, and is then rewritten to
  \<open>src/**\<close>. After \<open>clear\<close>, and after \<open>configure\<close>, the matcher has no verdict for the path,
  and \<open>excludes\<close> still answers from the patterns parsed before the rewrite: the path in
  \<open>build\<close> is excluded and a path in \<open>src\<close> is not, where a matcher that reads the file as
  it is now says the opposite.
\<close>

theorem excludes_after_clear_serves_old_patterns:
  "fst (excludes ignore_env new_FileMatcher (Some ''/proj/build/out.js'') (Some ''/proj''))
     = Inr True
   \<and> excludeCache
        (clear_matcher
           (snd (excludes ignore_env new_FileMatcher (Some ''/proj/build/out.js'') (Some ''/proj''))))
        ''/proj/build/out.js'' = None
   \<and> fst (excludes rewritten_env
          (clear_matcher
             (snd (excludes ignore_env new_FileMatcher (Some ''/proj/build/out.js'') (Some ''/proj''))))
          (Some ''/proj/build/out.js'') (Some ''/proj'')) = Inr True
   \<and> fst (excludes rewritten_env
          (clear_matcher
             (snd (excludes ignore_env new_FileMatcher (Some ''/proj/build/out.js'') (Some ''/proj''))))
          (Some ''/proj/src/out.js'') (Some ''/proj'')) = Inr False
   \<and> fst (excludes rewritten_env
          (configure_matcher None None
             (snd (excludes ignore_env new_FileMatcher (Some ''/proj/build/out.js'') (Some ''/proj''))))
          (Some ''/proj/build/out.js'') (Some ''/proj'')) = Inr True
   \<and> fst (excludes rewritten_env new_FileMatcher (Some ''/proj/build/out.js'') (Some ''/proj''))
     = Inr False
   \<and> fst (excludes rewritten_env new_FileMatcher (Some ''/proj/src/out.js'') (Some ''/proj''))
     = Inr True"
  by code_simp

subsection \<open>Option resolution\<close>

lemma locateFile_found:
  "locateFile e d f = Some l \<Longrightarrow>
   \<exists>n. l = path_join ((dirname ^^ n) d) f \<and> existsSync e l
       \<and> (\<forall>m<n. \<not> existsSync e (path_join ((dirname ^^ m) d) f))"
proof (induction e d f rule: locateFile.induct)
  case (1 e directory fileName)
  show ?case
  proof (cases "existsSync e (path_join directory fileName)")
    case True
    with "1.prems" have "l = path_join directory fileName"
      by (simp add: locateFile.simps [of e directory fileName] Let_def)
    with True have "l = path_join ((dirname ^^ 0) directory) fileName \<and> existsSync e l
       \<and> (\<forall>m<0. \<not> existsSync e (path_join ((dirname ^^ m) directory) fileName))"
      by simp
    then show ?thesis by blast
  next
    case False
    with "1.prems" have neq: "dirname directory \<noteq> directory"
      and rec: "locateFile e (dirname directory) fileName = Some l"
      by (simp_all add: locateFile.simps [of e directory fileName] Let_def split: if_splits)
    from "1.IH" [OF refl False refl neq rec]
    obtain n where n: "l = path_join ((dirname ^^ n) (dirname directory)) fileName"
      "existsSync e l"
      "\<forall>m<n. \<not> existsSync e (path_join ((dirname ^^ m) (dirname directory)) fileName)"
      by blast
    have "\<forall>m<Suc n. \<not> existsSync e (path_join ((dirname ^^ m) directory) fileName)"
    proof (intro allI impI)
      fix m assume "m < Suc n"
      show "\<not> existsSync e (path_join ((dirname ^^ m) directory) fileName)"
      proof (cases m)
        case 0
        with False show ?thesis by simp
      next
        case (Suc k)
        with \<open>m < Suc n\<close> n(3) show ?thesis by (simp add: funpow_swap1)
      qed
    qed
    with n(1,2) have "l = path_join ((dirname ^^ Suc n) directory) fileName \<and> existsSync e l
       \<and> (\<forall>m<Suc n. \<not> existsSync e (path_join ((dirname ^^ m) directory) fileName))"
      by (simp add: funpow_swap1)
    then show ?thesis by blast
  qed
qed

lemma funpow_fixed: "f x = x \<Longrightarrow> (f ^^ n) x = x"
  by (induction n) simp_all

lemma locateFile_not_found:
  "locateFile e d f = None \<Longrightarrow> \<not> existsSync e (path_join ((dirname ^^ n) d) f)"
proof (induction e d f arbitrary: n rule: locateFile.induct)
  case (1 e directory fileName)
  from "1.prems" have here: "\<not> existsSync e (path_join directory fileName)"
    by (simp add: locateFile.simps [of e directory fileName] Let_def split: if_splits)
  show ?case
  proof (cases "dirname directory = directory")
    case True
    then show ?thesis using here by (simp add: funpow_fixed)
  next
    case False
    with "1.prems" here have rec: "locateFile e (dirname directory) fileName = None"
      by (simp add: locateFile.simps [of e directory fileName] Let_def split: if_splits)
    show ?thesis
    proof (cases n)
      case 0
      with here show ?thesis by simp
    next
      case (Suc k)
      from "1.IH" [OF refl here refl False rec, of k] show ?thesis
        unfolding Suc by (simp add: funpow_swap1)
    qed
  qed
qed

lemma lift_case:
  "(case r of (Inl err, c) \<Rightarrow> (Inl err, c) | (Inr v, c) \<Rightarrow> (Inr (Some v), c))
     = map_prod (map_sum id Some) id r"
  by (cases r) (auto split: sum.splits)

text \<open>
  Claim C5, as the code has it. \<open>readOptions\<close> takes the first source that applies:
  (1) the configured path, if truthy and existing, read by \<open>readJsonFile\<close>;
  (2) the \<open>config\<close> path of the inline options, likewise;
  (3) for a truthy file path, the nearest \<open>package.json\<close> walking up from the path itself:
  when its content has a truthy \<open>jslintConfig\<close>, that value; when it has not, the search
  does not go on to a \<open>package.json\<close> farther up but to (4);
  (4) the nearest \<open>jslint.conf\<close>, read by \<open>readJSLintFile\<close>;
  (5) the \<open>jslint.conf\<close> of the home directory, read by \<open>readJSLintFile\<close>;
  (6) the inline options. "Nearest" is the first of the path, its \<open>dirname\<close>, the
  \<open>dirname\<close> of that, and so on, in which the file exists. \<open>readJsonFile\<close> returns the
  parsed value as it is, an \<open>extends\<close> key included.
\<close>

theorem readOptions_priority:
  "(\<forall>cp. existing e (configPath this) = Some cp \<longrightarrow>
       readOptions e this p conn = map_prod (Inr \<circ> Some) id (readJsonFile e cp None conn))
   \<and> (\<forall>lc. existing e (configPath this) = None \<and> legacy_config e (jslintOptions this) = Some lc \<longrightarrow>
       readOptions e this p conn = map_prod (Inr \<circ> Some) id (readJsonFile e lc None conn))
   \<and> (existing e (configPath this) = None \<and> legacy_config e (jslintOptions this) = None \<longrightarrow>
        (\<forall>pf content conn1.
            p \<noteq> [] \<and> locateFile e p ''package.json'' = Some pf
            \<and> readJsonFile e pf None conn = (content, conn1)
            \<and> truthy (get_prop content ''jslintConfig'') \<longrightarrow>
            readOptions e this p conn = (Inr (get_prop content ''jslintConfig''), conn1))
      \<and> (\<forall>pf content conn1.
            p \<noteq> [] \<and> locateFile e p ''package.json'' = Some pf
            \<and> readJsonFile e pf None conn = (content, conn1)
            \<and> content \<noteq> JNull \<and> \<not> truthy (get_prop content ''jslintConfig'') \<longrightarrow>
            readOptions e this p conn = readNearestConf e this p conn1)
      \<and> (p \<noteq> [] \<and> locateFile e p ''package.json'' = None \<longrightarrow>
            readOptions e this p conn = readNearestConf e this p conn)
      \<and> (p = [] \<longrightarrow> readOptions e this p conn = readHomeOptions e this conn))
   \<and> (\<forall>cf. locateFile e p JSLINTRC = Some cf \<longrightarrow>
         readNearestConf e this p c
           = map_prod (map_sum id Some) id (readJSLintFile (stack e) e cf None c))
   \<and> (locateFile e p JSLINTRC = None \<longrightarrow> readNearestConf e this p c = readHomeOptions e this c)
   \<and> (\<forall>h. home e = Some h \<and> h \<noteq> [] \<and> existsSync e (path_join h JSLINTRC) \<longrightarrow>
         readHomeOptions e this c
           = map_prod (map_sum id Some) id
               (readJSLintFile (stack e) e (path_join h JSLINTRC) None c))
   \<and> (home e = None \<or> home e = Some []
        \<or> (\<exists>h. home e = Some h \<and> \<not> existsSync e (path_join h JSLINTRC)) \<longrightarrow>
         readHomeOptions e this c = (Inr (jslintOptions this), c))
   \<and> (\<forall>f l. locateFile e p f = Some l \<longrightarrow>
         (\<exists>n. l = path_join ((dirname ^^ n) p) f \<and> existsSync e l
            \<and> (\<forall>m<n. \<not> existsSync e (path_join ((dirname ^^ m) p) f))))
   \<and> (\<forall>f n. locateFile e p f = None \<longrightarrow> \<not> existsSync e (path_join ((dirname ^^ n) p) f))
   \<and> (\<forall>file text v. files e file = Some (File text) \<and> JSON_parse e (stripComments text) = Some v \<longrightarrow>
         readJsonFile e file None conn = (v, conn))"
proof -
  have P1: "\<forall>cp. existing e (configPath this) = Some cp \<longrightarrow>
       readOptions e this p conn = map_prod (Inr \<circ> Some) id (readJsonFile e cp None conn)"
    by (simp add: readOptions_def split: prod.splits)
  have P2: "\<forall>lc. existing e (configPath this) = None \<and> legacy_config e (jslintOptions this) = Some lc \<longrightarrow>
       readOptions e this p conn = map_prod (Inr \<circ> Some) id (readJsonFile e lc None conn)"
    by (simp add: readOptions_def split: prod.splits)
  have P3: "existing e (configPath this) = None \<and> legacy_config e (jslintOptions this) = None \<longrightarrow>
        (\<forall>pf content conn1.
            p \<noteq> [] \<and> locateFile e p ''package.json'' = Some pf
            \<and> readJsonFile e pf None conn = (content, conn1)
            \<and> truthy (get_prop content ''jslintConfig'') \<longrightarrow>
            readOptions e this p conn = (Inr (get_prop content ''jslintConfig''), conn1))
      \<and> (\<forall>pf content conn1.
            p \<noteq> [] \<and> locateFile e p ''package.json'' = Some pf
            \<and> readJsonFile e pf None conn = (content, conn1)
            \<and> content \<noteq> JNull \<and> \<not> truthy (get_prop content ''jslintConfig'') \<longrightarrow>
            readOptions e this p conn = readNearestConf e this p conn1)
      \<and> (p \<noteq> [] \<and> locateFile e p ''package.json'' = None \<longrightarrow>
            readOptions e this p conn = readNearestConf e this p conn)
      \<and> (p = [] \<longrightarrow> readOptions e this p conn = readHomeOptions e this conn)"
  proof (intro impI conjI allI)
    fix pf content conn1
    assume a: "existing e (configPath this) = None \<and> legacy_config e (jslintOptions this) = None"
      and b: "p \<noteq> [] \<and> locateFile e p ''package.json'' = Some pf
            \<and> readJsonFile e pf None conn = (content, conn1)
            \<and> truthy (get_prop content ''jslintConfig'')"
    then have "content \<noteq> JNull" by auto
    with a b show "readOptions e this p conn = (Inr (get_prop content ''jslintConfig''), conn1)"
      by (simp add: readOptions_def del: truthy.simps get_prop.simps)
  next
    fix pf content conn1
    assume a: "existing e (configPath this) = None \<and> legacy_config e (jslintOptions this) = None"
      and b: "p \<noteq> [] \<and> locateFile e p ''package.json'' = Some pf
            \<and> readJsonFile e pf None conn = (content, conn1)
            \<and> content \<noteq> JNull \<and> \<not> truthy (get_prop content ''jslintConfig'')"
    then show "readOptions e this p conn = readNearestConf e this p conn1"
      by (simp add: readOptions_def del: truthy.simps get_prop.simps)
  next
    assume "existing e (configPath this) = None \<and> legacy_config e (jslintOptions this) = None"
      and "p \<noteq> [] \<and> locateFile e p ''package.json'' = None"
    then show "readOptions e this p conn = readNearestConf e this p conn"
      by (simp add: readOptions_def)
  next
    assume "existing e (configPath this) = None \<and> legacy_config e (jslintOptions this) = None"
      and "p = []"
    then show "readOptions e this p conn = readHomeOptions e this conn"
      by (simp add: readOptions_def)
  qed
  have P4: "\<forall>cf. locateFile e p JSLINTRC = Some cf \<longrightarrow>
         readNearestConf e this p c
           = map_prod (map_sum id Some) id (readJSLintFile (stack e) e cf None c)"
    by (simp add: readNearestConf_def lift_case)
  have P4': "locateFile e p JSLINTRC = None \<longrightarrow> readNearestConf e this p c = readHomeOptions e this c"
    by (simp add: readNearestConf_def)
  have P5: "\<forall>h. home e = Some h \<and> h \<noteq> [] \<and> existsSync e (path_join h JSLINTRC) \<longrightarrow>
         readHomeOptions e this c
           = map_prod (map_sum id Some) id
               (readJSLintFile (stack e) e (path_join h JSLINTRC) None c)"
    by (simp add: readHomeOptions_def lift_case Let_def)
  have P6: "home e = None \<or> home e = Some []
        \<or> (\<exists>h. home e = Some h \<and> \<not> existsSync e (path_join h JSLINTRC)) \<longrightarrow>
         readHomeOptions e this c = (Inr (jslintOptions this), c)"
    by (auto simp: readHomeOptions_def Let_def split: option.splits)
  have P7: "\<forall>f l. locateFile e p f = Some l \<longrightarrow>
         (\<exists>n. l = path_join ((dirname ^^ n) p) f \<and> existsSync e l
            \<and> (\<forall>m<n. \<not> existsSync e (path_join ((dirname ^^ m) p) f)))"
    using locateFile_found by blast
  have P8: "\<forall>f n. locateFile e p f = None \<longrightarrow> \<not> existsSync e (path_join ((dirname ^^ n) p) f)"
    using locateFile_not_found by blast
  have P9: "\<forall>file text v. files e file = Some (File text) \<and> JSON_parse e (stripComments text) = Some v \<longrightarrow>
         readJsonFile e file None conn = (v, conn)"
    by (simp add: readJsonFile_def)
  from P1 P2 P3 P4 P4' P5 P6 P7 P8 P9 show ?thesis by (intro conjI)
qed

theorem readOptions_priority_witness:
  "readOptions nested_env new_OptionsResolver ''/a/f.js'' no_messages
     = (Inr (Some (JObj [(''x'', JNum 1)])), no_messages)
   \<and> readOptions nested_env new_OptionsResolver ''/a/b/f.js'' no_messages
     = (Inr (Some (JObj [(''y'', JNum 2)])), no_messages)"
proof -
  let ?res = new_OptionsResolver
  have n1: "existing nested_env (configPath ?res) = None \<and> legacy_config nested_env (jslintOptions ?res) = None"
    by (simp add: new_OptionsResolver_def)
  note T = readOptions_priority [where e = nested_env and this = ?res and p = "''/a/f.js''"
               and conn = no_messages and c = no_messages,
             THEN conjunct2, THEN conjunct2, THEN conjunct1, THEN mp, OF n1]
  have a: "''/a/f.js'' \<noteq> [] \<and> locateFile nested_env ''/a/f.js'' ''package.json'' = Some ''/a/package.json''
          \<and> readJsonFile nested_env ''/a/package.json'' None no_messages
               = (JObj [(''jslintConfig'', JObj [(''x'', JNum 1)])], no_messages)
          \<and> truthy (get_prop (JObj [(''jslintConfig'', JObj [(''x'', JNum 1)])]) ''jslintConfig'')"
    by code_simp
  have r1: "readOptions nested_env ?res ''/a/f.js'' no_messages
      = (Inr (get_prop (JObj [(''jslintConfig'', JObj [(''x'', JNum 1)])]) ''jslintConfig''), no_messages)"
    by (rule T [THEN conjunct1, THEN spec, THEN spec, THEN spec, THEN mp, OF a])
  note U = readOptions_priority [where e = nested_env and this = ?res and p = "''/a/b/f.js''"
               and conn = no_messages and c = no_messages]
  have b: "''/a/b/f.js'' \<noteq> [] \<and> locateFile nested_env ''/a/b/f.js'' ''package.json'' = Some ''/a/b/package.json''
          \<and> readJsonFile nested_env ''/a/b/package.json'' None no_messages
               = (JObj [(''name'', JStr ''b'')], no_messages)
          \<and> JObj [(''name'', JStr ''b'')] \<noteq> JNull
          \<and> \<not> truthy (get_prop (JObj [(''name'', JStr ''b'')]) ''jslintConfig'')"
    by code_simp
  have r2: "readOptions nested_env ?res ''/a/b/f.js'' no_messages
      = readNearestConf nested_env ?res ''/a/b/f.js'' no_messages"
    by (rule U [THEN conjunct2, THEN conjunct2, THEN conjunct1, THEN mp, OF n1,
                THEN conjunct2, THEN conjunct1, THEN spec, THEN spec, THEN spec, THEN mp, OF b])
  have c: "locateFile nested_env ''/a/b/f.js'' JSLINTRC = Some ''/a/jslint.conf''"
    by code_simp
  have r3: "readNearestConf nested_env ?res ''/a/b/f.js'' no_messages
      = map_prod (map_sum id Some) id
          (readJSLintFile (stack nested_env) nested_env ''/a/jslint.conf'' None no_messages)"
    by (rule U [THEN conjunct2, THEN conjunct2, THEN conjunct2, THEN conjunct1,
                THEN spec, THEN mp, OF c])
  have r4: "readJSLintFile (stack nested_env) nested_env ''/a/jslint.conf'' None no_messages
      = (Inr (JObj [(''y'', JNum 2)]), no_messages)"
    by code_simp
  show ?thesis unfolding r1 r2 r3 r4 by simp
qed

text \<open>
  Claim C5 as stated fails in step 3: \<open>/a/package.json\<close> has the property and \<open>/a\<close> is an
  ancestor of \<open>/a/b/f.js\<close>, but the nearest \<open>package.json\<close>, in \<open>/a/b\<close>, has not; the
  options of \<open>/a/b/f.js\<close> then come from \<open>/a/jslint.conf\<close>.
\<close>

theorem readOptions_skips_farther_package:
  "existsSync nested_env ''/a/package.json''
   \<and> fst (readOptions nested_env new_OptionsResolver ''/a/f.js'' no_messages)
     = Inr (Some (JObj [(''x'', JNum 1)]))
   \<and> fst (readOptions nested_env new_OptionsResolver ''/a/b/f.js'' no_messages)
     = Inr (Some (JObj [(''y'', JNum 2)]))"
  by code_simp

subsection \<open>\<open>extends\<close>\<close>





subsection \<open>Comment stripping\<close>

text \<open>
  What the scan does with a token at the start of the text (it starts afresh behind every
  token, so the same holds wherever a token starts): a quoted string without backslash
  is copied as it is, whatever comment delimiters it holds; a block comment without a
  carriage return is dropped; a line comment is dropped up to its line end, and the line
  end (\<open>\n\<close> or \<open>\r\n\<close>) stays.
\<close>

lemma match_string_plain:
  "\<forall>c\<in>set body. c \<noteq> q \<and> c \<noteq> CHR 0x5C \<Longrightarrow> match_string q (body @ q # rest) = Some rest"
  by (induction body) simp_all

lemma match_block_plain:
  "CHR 0x0D \<notin> set body \<Longrightarrow> \<not> (\<exists>u v. body = u @ ''*/'' @ v) \<Longrightarrow>
   match_block (body @ ''*/'' @ rest) = Some rest"
proof (induction body)
  case Nil
  then show ?case by simp
next
  case (Cons c cs)
  have tail: "\<not> (\<exists>u v. cs = u @ ''*/'' @ v)"
  proof
    assume "\<exists>u v. cs = u @ ''*/'' @ v"
    then obtain u v where "cs = u @ ''*/'' @ v" by blast
    then have "c # cs = (c # u) @ ''*/'' @ v" by simp
    with Cons.prems(2) show False by blast
  qed
  have cr: "CHR 0x0D \<notin> set cs" and c: "c \<noteq> CHR 0x0D" using Cons.prems(1) by auto
  have noend: "\<not> (c = CHR ''*'' \<and> (case cs @ ''*/'' @ rest of [] \<Rightarrow> False | d # ds \<Rightarrow> d = CHR ''/''))"
  proof (cases cs)
    case Nil
    then show ?thesis by simp
  next
    case (Cons d ds)
    have "\<not> (c = CHR ''*'' \<and> d = CHR ''/'')"
    proof
      assume "c = CHR ''*'' \<and> d = CHR ''/''"
      then have "c # cs = [] @ ''*/'' @ ds" using Cons by simp
      with Cons.prems(2) show False by blast
    qed
    then show ?thesis using Cons by simp
  qed
  have "match_block (c # (cs @ ''*/'' @ rest)) = match_block (cs @ ''*/'' @ rest)"
    by (simp only: match_block.simps noend c if_False)
  with Cons.IH [OF cr tail] show ?case by simp
qed

lemma match_line_lf:
  "\<forall>c\<in>set body. c \<noteq> CHR 0x0A \<and> c \<noteq> CHR 0x0D \<Longrightarrow>
   match_line (body @ CHR 0x0A # rest) = Some rest"
  by (induction body) simp_all

lemma match_line_crlf:
  "\<forall>c\<in>set body. c \<noteq> CHR 0x0A \<and> c \<noteq> CHR 0x0D \<Longrightarrow>
   match_line (body @ CHR 0x0D # CHR 0x0A # rest) = Some rest"
  by (induction body) simp_all

lemma match_line_end:
  "\<forall>c\<in>set body. c \<noteq> CHR 0x0A \<and> c \<noteq> CHR 0x0D \<Longrightarrow> match_line body = Some []"
  by (induction body) simp_all

lemma match_line_cr:
  "\<forall>c\<in>set body. c \<noteq> CHR 0x0A \<and> c \<noteq> CHR 0x0D \<Longrightarrow> d \<noteq> CHR 0x0A \<Longrightarrow>
   match_line (body @ CHR 0x0D # d # rest) = None"
  by (induction body) simp_all

lemma stripComments_match:
  assumes "regexp_exec (m @ rest) = Some (g, rest)" and "m \<noteq> []"
  shows "stripComments (m @ rest) = replacer g m @ stripComments rest"
proof -
  from assms(2) obtain c cs where m: "m = c # cs" by (cases m) auto
  have t: "take (length (c # cs @ rest) - length rest) (c # cs @ rest) = c # cs"
    by simp
  from assms(1) have "regexp_exec (c # cs @ rest) = Some (g, rest)" unfolding m by simp
  then have "stripComments (c # cs @ rest) = replacer g (c # cs) @ stripComments rest"
    by (simp only: stripComments.simps option.case prod.case t)
  then show ?thesis unfolding m by simp
qed

lemma stripComments_no_match:
  "regexp_exec (c # cs) = None \<Longrightarrow> stripComments (c # cs) = c # stripComments cs"
  by (simp add: stripComments.simps)

lemma stripComments_string:
  assumes "q = CHR 0x22 \<or> q = CHR 0x27" and "\<forall>c\<in>set body. c \<noteq> q \<and> c \<noteq> CHR 0x5C"
  shows "stripComments (q # body @ q # rest) = q # body @ q # stripComments rest"
proof -
  from assms(1) obtain g where g: "regexp_exec ((q # body @ [q]) @ rest) = Some (g, rest)"
    "g = DoubleQuoted \<or> g = SingleQuoted"
    using match_string_plain [OF assms(2), of rest] by (auto simp: regexp_exec_def)
  have "replacer g (q # body @ [q]) = q # body @ [q]"
    using g(2) by (auto simp: replacer_def)
  with stripComments_match [OF g(1)] show ?thesis by simp
qed

lemma stripComments_block:
  assumes "CHR 0x0D \<notin> set body" and "\<not> (\<exists>u v. body = u @ ''*/'' @ v)"
  shows "stripComments (''/*'' @ body @ ''*/'' @ rest) = stripComments rest"
proof -
  have g: "regexp_exec ((''/*'' @ body @ ''*/'') @ rest) = Some (BlockComment, rest)"
    using match_block_plain [OF assms, of rest] by (simp add: regexp_exec_def)
  show ?thesis
    using stripComments_match [OF g] by (simp add: replacer_def)
qed

lemma replacer_lf:
  assumes "2 \<le> length m" and "last m \<noteq> CHR 0x0D"
  shows "replacer LineComment (m @ [CHR 0x0A]) = [CHR 0x0A]"
proof -
  from assms(1) obtain ys y where m: "m = ys @ [y]" by (cases m rule: rev_cases) auto
  with assms have y: "y \<noteq> CHR 0x0D" and ys: "1 \<le> length ys" by auto
  have a: "(m @ [CHR 0x0A]) ! (length (m @ [CHR 0x0A]) - 1) = CHR 0x0A" by simp
  have b: "(m @ [CHR 0x0A]) ! (length (m @ [CHR 0x0A]) - 2) = y"
    unfolding m by (simp add: nth_append)
  have c: "2 < length (m @ [CHR 0x0A])" using assms(1) by simp
  show ?thesis unfolding replacer_def Let_def capture.case a b using c y by simp
qed

lemma replacer_crlf:
  assumes "m \<noteq> []"
  shows "replacer LineComment (m @ [CHR 0x0D, CHR 0x0A]) = [CHR 0x0D, CHR 0x0A]"
proof -
  have a: "(m @ [CHR 0x0D, CHR 0x0A]) ! (length (m @ [CHR 0x0D, CHR 0x0A]) - 1) = CHR 0x0A"
    by (simp add: nth_append)
  have b: "(m @ [CHR 0x0D, CHR 0x0A]) ! (length (m @ [CHR 0x0D, CHR 0x0A]) - 2) = CHR 0x0D"
    by (simp add: nth_append)
  have c: "2 < length (m @ [CHR 0x0D, CHR 0x0A])" using assms by (cases m) auto
  show ?thesis unfolding replacer_def Let_def capture.case a b using c by simp
qed

lemma replacer_end:
  assumes "m \<noteq> []" and "last m \<noteq> CHR 0x0A"
  shows "replacer LineComment m = []"
proof -
  have "m ! (length m - 1) \<noteq> CHR 0x0A" using assms by (simp add: last_conv_nth)
  then show ?thesis unfolding replacer_def Let_def capture.case by simp
qed

lemma stripComments_line:
  assumes "\<forall>c\<in>set body. c \<noteq> CHR 0x0A \<and> c \<noteq> CHR 0x0D"
  shows "stripComments (''//'' @ body @ CHR 0x0A # rest) = CHR 0x0A # stripComments rest"
    and "stripComments (''//'' @ body @ CHR 0x0D # CHR 0x0A # rest)
           = CHR 0x0D # CHR 0x0A # stripComments rest"
    and "stripComments (''//'' @ body) = []"
proof -
  have g1: "regexp_exec (((''//'' @ body) @ [CHR 0x0A]) @ rest) = Some (LineComment, rest)"
    using match_line_lf [OF assms, of rest] by (simp add: regexp_exec_def)
  have l: "last (''//'' @ body) \<noteq> CHR 0x0D"
    using assms by (cases body rule: rev_cases) auto
  have n: "''//'' @ body \<noteq> []" by simp
  have r1: "replacer LineComment ((''//'' @ body) @ [CHR 0x0A]) = [CHR 0x0A]"
    by (rule replacer_lf) (use l in simp_all)
  show "stripComments (''//'' @ body @ CHR 0x0A # rest) = CHR 0x0A # stripComments rest"
    using stripComments_match [OF g1] unfolding r1 by simp
  have g2: "regexp_exec (((''//'' @ body) @ [CHR 0x0D, CHR 0x0A]) @ rest)
              = Some (LineComment, rest)"
    using match_line_crlf [OF assms, of rest] by (simp add: regexp_exec_def)
  have r2: "replacer LineComment ((''//'' @ body) @ [CHR 0x0D, CHR 0x0A]) = [CHR 0x0D, CHR 0x0A]"
    by (rule replacer_crlf) simp
  show "stripComments (''//'' @ body @ CHR 0x0D # CHR 0x0A # rest)
           = CHR 0x0D # CHR 0x0A # stripComments rest"
    using stripComments_match [OF g2] unfolding r2 by simp
  have g3: "regexp_exec ((''//'' @ body) @ []) = Some (LineComment, [])"
    using match_line_end [OF assms] by (simp add: regexp_exec_def)
  have l': "last (''//'' @ body) \<noteq> CHR 0x0A"
    using assms by (cases body rule: rev_cases) auto
  have r3: "replacer LineComment (''//'' @ body) = []"
    by (rule replacer_end) (use l' in simp_all)
  show "stripComments (''//'' @ body) = []"
    using stripComments_match [OF g3] r3 by (simp add: stripComments.simps)
qed

lemma stripComments_example:
  "stripComments ''{\"a\": 1, /* c */ \"b\": \"http://x\"}'' = ''{\"a\": 1,  \"b\": \"http://x\"}''"
  by code_simp

text \<open>
  Claim C4. \<open>stripComments\<close> removes block comments and line comments and leaves quoted
  strings alone. The code fails it for a carriage return that no line feed follows: the
  dot of the regular expression does not match it and \<^verbatim>\<open>\r?\n\<close> does not either, so a
  block comment with such a character inside, and a line comment that ends in one, stay
  in the text. With line feeds in the same places both are removed, as the lemmas above
  say in general and the last two lines below show.
\<close>

theorem stripComments_lone_carriage_return:
  "stripComments (''/* a'' @ [CHR 0x0D] @ ''b */{}'') = ''/* a'' @ [CHR 0x0D] @ ''b */{}''
   \<and> stripComments (''{'' @ [CHR 0x0D] @ ''// c'' @ [CHR 0x0D] @ ''}'')
       = ''{'' @ [CHR 0x0D] @ ''// c'' @ [CHR 0x0D] @ ''}''
   \<and> stripComments (''/* a'' @ [CHR 0x0A] @ ''b */{}'') = ''{}''
   \<and> stripComments (''{'' @ [CHR 0x0A] @ ''// c'' @ [CHR 0x0A] @ ''}'')
       = ''{'' @ [CHR 0x0A] @ [CHR 0x0A] @ ''}''"
  by code_simp

subsection \<open>Validation\<close>

lemma lintContent_without_data:
  assumes "\<And>content opts globals. JSLINT_data e content opts globals = None"
  shows "fst (lintContent e this content fsPath) \<noteq> Inr errors"
  by (simp add: lintContent_def assms Let_def split: prod.splits sum.splits)

text \<open>
  Claim C1. When the engine has no usable \<open>data()\<close>, validation is to show a warning,
  take the run as having no findings and still publish diagnostics. The code shows the
  warning, but then reads \<open>output.warnings\<close> of the undefined \<open>output\<close>: \<open>lintContent\<close>
  throws, \<open>validate\<close> passes the error on, and nothing is published for the document.
\<close>

theorem validate_engine_without_data:
  "fst (lintContent (example_env [] [] no_data) proj_linter ''x = 1'' ''/proj/src/a.js'')
     = Inl TypeError
   \<and> fst (validate (example_env [] [] no_data) proj_linter (''/proj/src/a.js'', ''x = 1''))
     = Inl TypeError
   \<and> connection (snd (validate (example_env [] [] no_data) proj_linter (''/proj/src/a.js'', ''x = 1'')))
     = \<lparr> shown = [''JSLint library does not export a data() method.  ''
                     @ ''The JSLint verions you are using is probably out of date.''],
         published = [] \<rparr>"
  by code_simp

text \<open>With an engine that reports, the same document gets its diagnostics, and an
  excluded document the empty list.\<close>

lemma validate_scenario:
  "connection (snd (validate (example_env [] [] one_warning) proj_linter (''/proj/src/a.js'', ''x = 1'')))
     = \<lparr> shown = [],
         published = [(''/proj/src/a.js'',
            [\<lparr> message = ''Missing semicolon (W1)'', severity = Warning, source = ''jsLint'',
               diag_code = Some ''W1'',
               diag_range = \<lparr> range_start = \<lparr> pos_line = 0, pos_character = 0 \<rparr>,
                              range_end = \<lparr> pos_line = 0, pos_character = 0 \<rparr> \<rparr> \<rparr>])] \<rparr>
   \<and> connection (snd (validate (example_env [] [] one_warning) proj_linter (''/proj/build/a.js'', ''x = 1'')))
     = \<lparr> shown = [], published = [(''/proj/build/a.js'', [])] \<rparr>"
  by code_simp

end
